theory Spec2Isabelle
  imports Complex_Main "HOL-Library.Log_Nat"
begin

section \<open>GPS-verified check-in and check-out (routes/checkins.js)\<close>

text \<open>
  The theory embeds the check-in/check-out routes of \<^verbatim>\<open>src/backend/routes/checkins.js\<close>
  together with the \<^verbatim>\<open>checkins\<close> table of the database schema. A request handler becomes a
  function from the database state and the request to a response and the new state; every
  early \<^verbatim>\<open>return res.status(...)\<close> is a value of the type \<open>error\<close>.

  Conventions.
  \<^item> Times are milliseconds since the epoch (\<open>int\<close>), the resolution of a JavaScript
    \<^verbatim>\<open>Date\<close>; the server and the database are taken to share a time zone. A handler sees
    two clocks: \<open>now\<close> is JavaScript's \<^verbatim>\<open>new Date()\<close>, \<open>db_now\<close> is PostgreSQL's
    \<^verbatim>\<open>NOW()\<close>.
  \<^item> The coordinates of a JSON body are numbers or absent (\<open>real option\<close>, \<open>None\<close> an absent
    field), \<^verbatim>\<open>projectId\<close> is a natural number or absent, \<^verbatim>\<open>photoUrl\<close> and \<^verbatim>\<open>notes\<close> are
    strings or absent. JavaScript's \<^verbatim>\<open>!x\<close> is true of an absent field, of the number 0 and
    of the empty string.
  \<^item> \<^verbatim>\<open>scheduledTime\<close> is an absent field or a date string, represented by the instant that
    \<^verbatim>\<open>new Date(scheduledTime)\<close> reads from it; a date string is not empty and so is truthy.
  \<^item> \<^verbatim>\<open>Math.sin\<close>, \<^verbatim>\<open>Math.cos\<close>, \<^verbatim>\<open>Math.sqrt\<close> and \<^verbatim>\<open>Math.atan2\<close> are
    implementation-approximated in ECMAScript; \<open>calculateDistance\<close> is therefore the haversine
    formula in exact real arithmetic. The division and \<^verbatim>\<open>toFixed(2)\<close> of the check-out route
    are fully determined by IEEE 754 and ECMAScript and are modelled exactly.
\<close>

subsection \<open>Haversine distance\<close>

text \<open>\<^verbatim>\<open>Math.atan2(y, x)\<close> on real numbers.\<close>

definition atan2 :: "real \<Rightarrow> real \<Rightarrow> real" where
  "atan2 y x =
     (if 0 < x then arctan (y / x)
      else if x < 0 then (if 0 \<le> y then arctan (y / x) + pi else arctan (y / x) - pi)
      else if 0 < y then pi / 2
      else if y < 0 then - (pi / 2)
      else 0)"

text \<open>The constant \<^verbatim>\<open>a\<close> of \<^verbatim>\<open>calculateDistance\<close>.\<close>

definition haversine_a :: "real \<Rightarrow> real \<Rightarrow> real \<Rightarrow> real \<Rightarrow> real" where
  "haversine_a lat1 lon1 lat2 lon2 =
     (let phi1 = (lat1 * pi) / 180;
          phi2 = (lat2 * pi) / 180;
          dphi = ((lat2 - lat1) * pi) / 180;
          dlam = ((lon2 - lon1) * pi) / 180
      in sin (dphi / 2) * sin (dphi / 2) +
         cos phi1 * cos phi2 * sin (dlam / 2) * sin (dlam / 2))"

text \<open>
  \<^verbatim>\<open>Math.sqrt\<close> of a negative number is NaN, whereas \<open>sqrt\<close> is defined on all reals. Lemmas
  \<open>haversine_a_ge_0\<close> and \<open>haversine_a_le_1\<close> below show that both arguments of \<open>sqrt\<close> are
  never negative, so the difference does not arise.
\<close>

definition calculateDistance :: "real \<Rightarrow> real \<Rightarrow> real \<Rightarrow> real \<Rightarrow> real" where
  "calculateDistance lat1 lon1 lat2 lon2 =
     (let R = 6371000;
          a = haversine_a lat1 lon1 lat2 lon2;
          c = 2 * atan2 (sqrt a) (sqrt (1 - a))
      in R * c)"

text \<open>The invariant of the specification's Coordinate type.\<close>

definition valid_coordinate :: "real \<Rightarrow> real \<Rightarrow> bool" where
  "valid_coordinate lat lng \<longleftrightarrow> - 90 \<le> lat \<and> lat \<le> 90 \<and> - 180 \<le> lng \<and> lng \<le> 180"

text \<open>\<^verbatim>\<open>Math.round\<close>: the nearest integer, a tie going up.\<close>

definition js_round :: "real \<Rightarrow> int" where
  "js_round x = \<lfloor>x + 1 / 2\<rfloor>"

subsection \<open>Double-precision division and \<^verbatim>\<open>toFixed(2)\<close>\<close>

text \<open>Rounding a real to the nearest integer, a tie going to the even neighbour.\<close>

definition round_ties_even :: "real \<Rightarrow> int" where
  "round_ties_even x =
     (let k = \<lfloor>x\<rfloor>; f = x - of_int k
      in if f < 1 / 2 then k else if 1 / 2 < f then k + 1 else if even k then k else k + 1)"

text \<open>For positive integers \<open>p\<close> and \<open>q\<close>: the integer \<open>L\<close> with \<open>2 powi L \<le> p / q < 2 powi (L + 1)\<close>.\<close>

definition double_exponent :: "int \<Rightarrow> int \<Rightarrow> int" where
  "double_exponent p q =
     (let d = bitlen p - bitlen q
      in if of_int q * 2 powi d \<le> (of_int p :: real) then d else d - 1)"

text \<open>
  The IEEE 754 binary64 quotient of two positive integers that are themselves doubles: the
  exact quotient rounded to 53 significant bits, ties to even (normal range).
\<close>

definition double_div_pos :: "int \<Rightarrow> int \<Rightarrow> real" where
  "double_div_pos p q =
     (let e = double_exponent p q - 52;
          m = round_ties_even (of_int p / (of_int q * 2 powi e))
      in of_int m * 2 powi e)"

definition double_div :: "int \<Rightarrow> int \<Rightarrow> real" where
  "double_div p q =
     (if p = 0 then 0
      else if 0 < p then double_div_pos p q
      else - double_div_pos (- p) q)"

text \<open>
  The number that the string \<^verbatim>\<open>x.toFixed(2)\<close> denotes: ``let n be an integer for which
  n / 100 - x is as close to zero as possible; if there are two such n, pick the larger'',
  applied to the absolute value, the sign put back in front. (ECMAScript does so below
  \<open>10 ^ 21\<close>, far above every quotient of a difference of two time values by 3600000.)
\<close>

definition toFixed2 :: "real \<Rightarrow> real" where
  "toFixed2 x =
     (if x < 0 then - (of_int \<lfloor>(- x) * 100 + 1 / 2\<rfloor> / 100)
      else of_int \<lfloor>x * 100 + 1 / 2\<rfloor> / 100)"

text \<open>
  Rounding to two decimal places, half up, as the specification words it; used only to
  compare the route with the specification.
\<close>

definition half_up2 :: "real \<Rightarrow> real" where
  "half_up2 x = of_int \<lfloor>x * 100 + 1 / 2\<rfloor> / 100"

subsection \<open>The database\<close>

type_synonym time = int

record worker_row =
  worker_row_id :: nat
  user_id :: "nat option"

text \<open>
  A row of \<^verbatim>\<open>projects\<close>, restricted to the columns the check-in route selects. The module
  \<^verbatim>\<open>database.js\<close> that runs the queries is not among the sources; rows are taken as the
  PostgreSQL driver returns them by default, a non-NULL DECIMAL column as a string of digits
  (hence the \<^verbatim>\<open>parseFloat\<close> calls of the routes) and an INTEGER column as a number. Such a
  string is truthy whatever number it denotes, so
  \<^verbatim>\<open>project.gps_latitude && project.gps_longitude\<close> tests that neither column is NULL.
\<close>

record project_row =
  project_row_id :: nat
  gps_latitude :: "real option"
  gps_longitude :: "real option"
  geofence_radius_meters :: "int option"

text \<open>A row of \<^verbatim>\<open>checkins\<close>, with all columns of the schema. The columns \<^verbatim>\<open>id\<close> and
  \<^verbatim>\<open>notes\<close> are called \<open>row_id\<close> and \<open>row_notes\<close> here, both names being taken in Isabelle.\<close>

record checkin_row =
  row_id :: nat
  worker_id :: nat
  project_id :: nat
  checkin_time :: time
  checkout_time :: "time option"
  checkin_gps_lat :: real
  checkin_gps_lng :: real
  checkout_gps_lat :: "real option"
  checkout_gps_lng :: "real option"
  checkin_photo_url :: "string option"
  checkout_photo_url :: "string option"
  is_late :: bool
  hours_worked :: "real option"
  row_notes :: "string option"
  created_at :: time
  updated_at :: time

record db =
  workers :: "worker_row list"
  projects :: "project_row list"
  checkins :: "checkin_row list"
  checkins_id_seq :: nat

text \<open>PostgreSQL rounds a value assigned to a \<^verbatim>\<open>DECIMAL(p, s)\<close> column to \<open>s\<close> decimal
  places, a tie going away from zero, and raises ``numeric field overflow'' unless the
  rounded value is below \<open>10 ^ (p - s)\<close> in absolute value.\<close>

definition pg_round :: "nat \<Rightarrow> real \<Rightarrow> real" where
  "pg_round s x =
     (if x < 0 then - (of_int \<lfloor>(- x) * 10 ^ s + 1 / 2\<rfloor> / 10 ^ s)
      else of_int \<lfloor>x * 10 ^ s + 1 / 2\<rfloor> / 10 ^ s)"

definition pg_numeric :: "nat \<Rightarrow> nat \<Rightarrow> real \<Rightarrow> real option" where
  "pg_numeric p s x = (let v = pg_round s x in if \<bar>v\<bar> < 10 ^ (p - s) then Some v else None)"

text \<open>\<^verbatim>\<open>SELECT id FROM workers WHERE user_id = $1\<close>, then \<^verbatim>\<open>rows[0].id\<close>.\<close>

definition select_worker_id :: "db \<Rightarrow> nat \<Rightarrow> nat option" where
  "select_worker_id s uid =
     (case filter (\<lambda>w. user_id w = Some uid) (workers s) of
        [] \<Rightarrow> None
      | w # _ \<Rightarrow> Some (worker_row_id w))"

text \<open>\<^verbatim>\<open>SELECT ... FROM projects WHERE id = $1\<close>, then \<^verbatim>\<open>rows[0]\<close>.\<close>

definition select_project :: "db \<Rightarrow> nat \<Rightarrow> project_row option" where
  "select_project s pid =
     (case filter (\<lambda>p. project_row_id p = pid) (projects s) of
        [] \<Rightarrow> None
      | p # _ \<Rightarrow> Some p)"

text \<open>\<^verbatim>\<open>SELECT ... FROM checkins WHERE worker_id = $1 AND checkout_time IS NULL\<close>: the open
  shifts of a worker.\<close>

definition active_checkins :: "db \<Rightarrow> nat \<Rightarrow> checkin_row list" where
  "active_checkins s w = filter (\<lambda>c. worker_id c = w \<and> checkout_time c = None) (checkins s)"

text \<open>\<^verbatim>\<open>ORDER BY checkin_time DESC\<close>; rows of equal time stay in table order (SQL leaves
  their order open).\<close>

definition order_by_checkin_time_desc :: "checkin_row list \<Rightarrow> checkin_row list" where
  "order_by_checkin_time_desc rows = sort_key (\<lambda>c. - checkin_time c) rows"

text \<open>The \<^verbatim>\<open>INSERT INTO checkins ... RETURNING *\<close> of the check-in route. \<open>None\<close> is a
  statement that PostgreSQL rejects, which the route's \<^verbatim>\<open>catch\<close> turns into status 500.\<close>

definition insert_checkin ::
  "db \<Rightarrow> nat \<Rightarrow> nat \<Rightarrow> real \<Rightarrow> real \<Rightarrow> string option \<Rightarrow> bool \<Rightarrow> time \<Rightarrow> (checkin_row \<times> db) option" where
  "insert_checkin s workerId pid lat lng photo isLate db_now =
     (case pg_numeric 10 8 lat of
        None \<Rightarrow> None
      | Some slat \<Rightarrow>
          (case pg_numeric 11 8 lng of
             None \<Rightarrow> None
           | Some slng \<Rightarrow>
               (let row = \<lparr> row_id = checkins_id_seq s, worker_id = workerId, project_id = pid,
                             checkin_time = db_now, checkout_time = None,
                             checkin_gps_lat = slat, checkin_gps_lng = slng,
                             checkout_gps_lat = None, checkout_gps_lng = None,
                             checkin_photo_url = photo, checkout_photo_url = None,
                             is_late = isLate, hours_worked = None, row_notes = None,
                             created_at = db_now, updated_at = db_now \<rparr>
                in Some (row, s\<lparr> checkins := checkins s @ [row],
                                  checkins_id_seq := Suc (checkins_id_seq s) \<rparr>))))"

text \<open>The \<^verbatim>\<open>SET\<close> clause of the check-out route's \<^verbatim>\<open>UPDATE checkins\<close>, followed by the
  table's trigger \<^verbatim>\<open>update_checkins_updated_at\<close>, which sets \<^verbatim>\<open>updated_at\<close> on every update.\<close>

definition close_row ::
  "real \<Rightarrow> real \<Rightarrow> string option \<Rightarrow> real \<Rightarrow> string option \<Rightarrow> time \<Rightarrow> checkin_row \<Rightarrow> checkin_row" where
  "close_row slat slng photo hours nts db_now c =
     c\<lparr> checkout_time := Some db_now,
        checkout_gps_lat := Some slat,
        checkout_gps_lng := Some slng,
        checkout_photo_url := photo,
        hours_worked := Some hours,
        row_notes := nts,
        updated_at := db_now \<rparr>"

text \<open>The \<^verbatim>\<open>UPDATE checkins SET ... WHERE id = $6 RETURNING *\<close> of the check-out route,
  for the row \<open>c\<close> that the route has just selected. \<^verbatim>\<open>id\<close> is the primary key, so the
  returned row is the update of \<open>c\<close>.\<close>

definition update_checkout ::
  "db \<Rightarrow> checkin_row \<Rightarrow> real \<Rightarrow> real \<Rightarrow> string option \<Rightarrow> real \<Rightarrow> string option \<Rightarrow> time
     \<Rightarrow> (checkin_row \<times> db) option" where
  "update_checkout s c lat lng photo hours nts db_now =
     (case pg_numeric 10 8 lat of
        None \<Rightarrow> None
      | Some slat \<Rightarrow>
          (case pg_numeric 11 8 lng of
             None \<Rightarrow> None
           | Some slng \<Rightarrow>
               (case pg_numeric 5 2 hours of
                  None \<Rightarrow> None
                | Some h \<Rightarrow>
                    Some (close_row slat slng photo h nts db_now c,
                          s\<lparr> checkins :=
                               map (\<lambda>r. if row_id r = row_id c
                                         then close_row slat slng photo h nts db_now r else r)
                                   (checkins s) \<rparr>))))"

subsection \<open>Requests and responses\<close>

record gps_body =
  gpsLat :: "real option"
  gpsLng :: "real option"
  photoUrl :: "string option"

record checkin_body = gps_body +
  projectId :: "nat option"
  scheduledTime :: "time option"

record checkout_body = gps_body +
  notes_field :: "string option"

text \<open>The responses that are not a success, named after the specification's taxonomy:
  status 400, 404 (worker), 404 (project), 403 with the fields \<^verbatim>\<open>distance\<close> and
  \<^verbatim>\<open>maxDistance\<close>, 409 with \<^verbatim>\<open>checkinId\<close>, 404 (no active check-in) and 500.\<close>

datatype error =
    MissingFields
  | WorkerNotFound
  | ProjectNotFound
  | GeofenceViolation int int
  | AlreadyCheckedIn nat
  | NoActiveShift
  | InternalError

fun geofence_rejected :: "error + 'a \<Rightarrow> bool" where
  "geofence_rejected (Inl (GeofenceViolation _ _)) = True"
| "geofence_rejected _ = False"

text \<open>\<^verbatim>\<open>!x\<close> for a body field that is absent or a number.\<close>

definition falsy_number :: "real option \<Rightarrow> bool" where
  "falsy_number v \<longleftrightarrow> v = None \<or> v = Some 0"

definition falsy_id :: "nat option \<Rightarrow> bool" where
  "falsy_id v \<longleftrightarrow> v = None \<or> v = Some 0"

text \<open>\<^verbatim>\<open>x || null\<close> for an absent field or a string: the empty string is falsy.\<close>

definition or_null :: "string option \<Rightarrow> string option" where
  "or_null v = (if v = Some [] then None else v)"

subsection \<open>Check-in\<close>

text \<open>\<^verbatim>\<open>project.geofence_radius_meters || 100\<close>.\<close>

definition maxDistance :: "project_row \<Rightarrow> int" where
  "maxDistance project =
     (case geofence_radius_meters project of
        None \<Rightarrow> 100
      | Some r \<Rightarrow> if r = 0 then 100 else r)"

text \<open>Lines 58 to 77, ``Verify GPS location is within geofence'': \<open>Some e\<close> is the early
  return with status 403, \<open>None\<close> lets the request continue.\<close>

definition geofence_check :: "project_row \<Rightarrow> real \<Rightarrow> real \<Rightarrow> error option" where
  "geofence_check project lat lng =
     (case gps_latitude project of
        None \<Rightarrow> None
      | Some plat \<Rightarrow>
          (case gps_longitude project of
             None \<Rightarrow> None
           | Some plng \<Rightarrow>
               (let distance = calculateDistance lat lng plat plng
                in if distance > of_int (maxDistance project)
                   then Some (GeofenceViolation (js_round distance) (maxDistance project))
                   else None)))"

text \<open>Lines 79 to 111: the look-up of an open shift, the lateness flag and the insert.\<close>

definition checkin_record ::
  "db \<Rightarrow> nat \<Rightarrow> nat \<Rightarrow> real \<Rightarrow> real \<Rightarrow> string option \<Rightarrow> time option \<Rightarrow> time \<Rightarrow> time
     \<Rightarrow> (error + checkin_row) \<times> db" where
  "checkin_record s workerId pid lat lng photo scheduled now db_now =
     (case active_checkins s workerId of
        c # _ \<Rightarrow> (Inl (AlreadyCheckedIn (row_id c)), s)
      | [] \<Rightarrow>
          (let isLate = (case scheduled of None \<Rightarrow> False | Some t \<Rightarrow> t < now)
           in case insert_checkin s workerId pid lat lng (or_null photo) isLate db_now of
                None \<Rightarrow> (Inl InternalError, s)
              | Some (row, s') \<Rightarrow> (Inr row, s')))"

text \<open>\<^verbatim>\<open>router.post('/checkin', ...)\<close> for the authenticated user \<open>uid\<close>.\<close>

definition checkin ::
  "db \<Rightarrow> nat \<Rightarrow> checkin_body \<Rightarrow> time \<Rightarrow> time \<Rightarrow> (error + checkin_row) \<times> db" where
  "checkin s uid body now db_now =
     (if falsy_id (projectId body) \<or> falsy_number (gpsLat body) \<or> falsy_number (gpsLng body)
      then (Inl MissingFields, s)
      else
        (case (projectId body, gpsLat body, gpsLng body) of
           (Some pid, Some lat, Some lng) \<Rightarrow>
             (case select_worker_id s uid of
                None \<Rightarrow> (Inl WorkerNotFound, s)
              | Some workerId \<Rightarrow>
                  (case select_project s pid of
                     None \<Rightarrow> (Inl ProjectNotFound, s)
                   | Some project \<Rightarrow>
                       (case geofence_check project lat lng of
                          Some e \<Rightarrow> (Inl e, s)
                        | None \<Rightarrow>
                            checkin_record s workerId pid lat lng (photoUrl body)
                              (scheduledTime body) now db_now)))
         | _ \<Rightarrow> (Inl MissingFields, s)))"

subsection \<open>Check-out\<close>

text \<open>\<^verbatim>\<open>router.post('/checkout', ...)\<close>. A success carries the updated row and the field
  \<^verbatim>\<open>hoursWorked\<close> of the response.\<close>

definition checkout ::
  "db \<Rightarrow> nat \<Rightarrow> checkout_body \<Rightarrow> time \<Rightarrow> time \<Rightarrow> (error + checkin_row \<times> real) \<times> db" where
  "checkout s uid body now db_now =
     (if falsy_number (gpsLat body) \<or> falsy_number (gpsLng body)
      then (Inl MissingFields, s)
      else
        (case (gpsLat body, gpsLng body) of
           (Some lat, Some lng) \<Rightarrow>
             (case select_worker_id s uid of
                None \<Rightarrow> (Inl WorkerNotFound, s)
              | Some workerId \<Rightarrow>
                  (case order_by_checkin_time_desc (active_checkins s workerId) of
                     [] \<Rightarrow> (Inl NoActiveShift, s)
                   | c # _ \<Rightarrow>
                       (let hoursWorked = double_div (now - checkin_time c) (1000 * 60 * 60)
                        in case update_checkout s c lat lng (or_null (photoUrl body))
                                  (toFixed2 hoursWorked) (or_null (notes_field body)) db_now of
                             None \<Rightarrow> (Inl InternalError, s)
                           | Some (row, s') \<Rightarrow> (Inr (row, toFixed2 hoursWorked), s'))))
         | _ \<Rightarrow> (Inl MissingFields, s)))"

subsection \<open>The two queries\<close>

record checkin_query =
  filter_projectId :: "nat option"
  filter_workerId :: "nat option"
  filter_startDate :: "time option"
  filter_endDate :: "time option"

text \<open>\<^verbatim>\<open>router.get('/', ...)\<close>: the rows and their count. The two inner joins keep a row
  only if its worker and its project exist; the joined name columns are left out.\<close>

definition get_checkins :: "db \<Rightarrow> checkin_query \<Rightarrow> checkin_row list \<times> nat" where
  "get_checkins s q =
     (let rows = take 100 (order_by_checkin_time_desc
            (filter (\<lambda>c.
                 (\<exists>w \<in> set (workers s). worker_row_id w = worker_id c) \<and>
                 (\<exists>p \<in> set (projects s). project_row_id p = project_id c) \<and>
                 (case filter_projectId q of None \<Rightarrow> True | Some pid \<Rightarrow> project_id c = pid) \<and>
                 (case filter_workerId q of None \<Rightarrow> True | Some w \<Rightarrow> worker_id c = w) \<and>
                 (case filter_startDate q of None \<Rightarrow> True | Some t \<Rightarrow> t \<le> checkin_time c) \<and>
                 (case filter_endDate q of None \<Rightarrow> True | Some t \<Rightarrow> checkin_time c \<le> t))
               (checkins s)))
      in (rows, length rows))"

text \<open>\<^verbatim>\<open>router.get('/active', ...)\<close>: \<open>Inr None\<close> is the response
  \<^verbatim>\<open>{ active: false, checkin: null }\<close>.\<close>

definition get_active :: "db \<Rightarrow> nat \<Rightarrow> error + checkin_row option" where
  "get_active s uid =
     (case select_worker_id s uid of
        None \<Rightarrow> Inl WorkerNotFound
      | Some workerId \<Rightarrow>
          (case order_by_checkin_time_desc
                  (filter (\<lambda>c. \<exists>p \<in> set (projects s). project_row_id p = project_id c)
                     (active_checkins s workerId)) of
             [] \<Rightarrow> Inr None
           | c # _ \<Rightarrow> Inr (Some c)))"

subsection \<open>Sequential executions\<close>

datatype request =
    CheckIn nat checkin_body time time
  | CheckOut nat checkout_body time time
  | GetCheckins checkin_query
  | GetActive nat

datatype response =
    CheckInResponse "error + checkin_row"
  | CheckOutResponse "error + checkin_row \<times> real"
  | CheckinsResponse "checkin_row list \<times> nat"
  | ActiveResponse "error + checkin_row option"

text \<open>The router: the response to a request and the database after it. The two queries are
  \<^verbatim>\<open>SELECT\<close> statements and leave the database as it is.\<close>

fun handle :: "db \<Rightarrow> request \<Rightarrow> response \<times> db" where
  "handle s (CheckIn uid body now db_now) =
     (CheckInResponse (fst (checkin s uid body now db_now)), snd (checkin s uid body now db_now))"
| "handle s (CheckOut uid body now db_now) =
     (CheckOutResponse (fst (checkout s uid body now db_now)), snd (checkout s uid body now db_now))"
| "handle s (GetCheckins q) = (CheckinsResponse (get_checkins s q), s)"
| "handle s (GetActive uid) = (ActiveResponse (get_active s uid), s)"

definition step :: "db \<Rightarrow> request \<Rightarrow> db" where
  "step s r = snd (handle s r)"

text \<open>Requests handled one after the other: the state after the requests \<open>rs\<close>, starting in
  \<open>s\<close>, is \<open>foldl step s rs\<close>.\<close>

subsection \<open>Sample data\<close>

text \<open>The first sample project of the schema, with the default radius of 100 metres, a
  project without a location and a project with a radius of one metre; one worker, whose
  user is number 3.\<close>

definition site_worker :: worker_row where
  "site_worker = \<lparr> worker_row_id = 7, user_id = Some 3 \<rparr>"

definition riverside :: project_row where
  "riverside = \<lparr> project_row_id = 1, gps_latitude = Some 30.2672,
                 gps_longitude = Some (- 97.7431), geofence_radius_meters = Some 100 \<rparr>"

definition unlocated_site :: project_row where
  "unlocated_site = \<lparr> project_row_id = 2, gps_latitude = None,
                      gps_longitude = None, geofence_radius_meters = Some 100 \<rparr>"

definition tiny_site :: project_row where
  "tiny_site = \<lparr> project_row_id = 3, gps_latitude = Some 10,
                 gps_longitude = Some 10, geofence_radius_meters = Some 1 \<rparr>"

definition empty_ledger :: db where
  "empty_ledger = \<lparr> workers = [site_worker], projects = [riverside, unlocated_site, tiny_site],
                    checkins = [], checkins_id_seq = 1 \<rparr>"

text \<open>The shift that worker 7 opens at the Riverside site at time 0, and the ledger that
  holds it.\<close>

definition first_shift :: checkin_row where
  "first_shift = \<lparr> row_id = 1, worker_id = 7, project_id = 1, checkin_time = 0,
                   checkout_time = None, checkin_gps_lat = 30.2672, checkin_gps_lng = - 97.7431,
                   checkout_gps_lat = None, checkout_gps_lng = None,
                   checkin_photo_url = None, checkout_photo_url = None,
                   is_late = False, hours_worked = None, row_notes = None,
                   created_at = 0, updated_at = 0 \<rparr>"

definition open_ledger :: db where
  "open_ledger = empty_ledger\<lparr> checkins := [first_shift], checkins_id_seq := 2 \<rparr>"

text \<open>Check-in bodies: at the Riverside site; 0.0045 degrees (about 500 metres) north of it;
  at the project without a location; a good metre and a half north of the one-metre site; on
  the equator.\<close>

definition body_at_site :: checkin_body where
  "body_at_site = \<lparr> gpsLat = Some 30.2672, gpsLng = Some (- 97.7431), photoUrl = None,
                    projectId = Some 1, scheduledTime = None \<rparr>"

definition body_away :: checkin_body where
  "body_away = \<lparr> gpsLat = Some 30.2717, gpsLng = Some (- 97.7431), photoUrl = None,
                 projectId = Some 1, scheduledTime = None \<rparr>"

definition body_unlocated :: checkin_body where
  "body_unlocated = \<lparr> gpsLat = Some 51.5, gpsLng = Some 12, photoUrl = None,
                      projectId = Some 2, scheduledTime = None \<rparr>"

definition body_tiny :: checkin_body where
  "body_tiny = \<lparr> gpsLat = Some (10 + 90 / 6371000), gpsLng = Some 10, photoUrl = None,
                 projectId = Some 3, scheduledTime = None \<rparr>"

definition body_equator :: checkin_body where
  "body_equator = \<lparr> gpsLat = Some 0, gpsLng = Some 9.5, photoUrl = None,
                    projectId = Some 1, scheduledTime = None \<rparr>"

text \<open>Check-out bodies: at the Riverside site; without coordinates; on the prime meridian.\<close>

definition body_leave :: checkout_body where
  "body_leave = \<lparr> gpsLat = Some 30.2672, gpsLng = Some (- 97.7431), photoUrl = None,
                  notes_field = None \<rparr>"

definition body_no_gps :: checkout_body where
  "body_no_gps = \<lparr> gpsLat = None, gpsLng = None, photoUrl = None, notes_field = None \<rparr>"

definition body_meridian :: checkout_body where
  "body_meridian = \<lparr> gpsLat = Some 51.5, gpsLng = Some 0, photoUrl = None,
                     notes_field = None \<rparr>"

text \<open>A check-in body with a scheduled time one hour before the check-in at time 0, and the
  shift and ledger that result.\<close>

definition body_scheduled :: checkin_body where
  "body_scheduled = body_at_site\<lparr> scheduledTime := Some (- 3600000) \<rparr>"

definition late_shift :: checkin_row where
  "late_shift = first_shift\<lparr> is_late := True \<rparr>"

definition late_ledger :: db where
  "late_ledger = open_ledger\<lparr> checkins := [late_shift] \<rparr>"

text \<open>The first shift closed after two and a half hours, the database clock being 5 ms
  ahead, and the ledger that holds it.\<close>

definition closed_shift :: checkin_row where
  "closed_shift = first_shift\<lparr> checkout_time := Some 9000005,
                     checkout_gps_lat := Some 30.2672, checkout_gps_lng := Some (- 97.7431),
                     hours_worked := Some (5 / 2), updated_at := 9000005 \<rparr>"

definition closed_ledger :: db where
  "closed_ledger = open_ledger\<lparr> checkins := [closed_shift] \<rparr>"

text \<open>The row \<open>r\<close> with the seven columns that a check-out writes taken from \<open>src\<close>; used to
  state which columns a check-out leaves alone.\<close>

definition with_checkout_columns :: "checkin_row \<Rightarrow> checkin_row \<Rightarrow> checkin_row" where
  "with_checkout_columns src r =
     r\<lparr> checkout_time := checkout_time src,
        checkout_gps_lat := checkout_gps_lat src,
        checkout_gps_lng := checkout_gps_lng src,
        checkout_photo_url := checkout_photo_url src,
        hours_worked := hours_worked src,
        row_notes := row_notes src,
        updated_at := updated_at src \<rparr>"

text \<open>The same without \<^verbatim>\<open>updated_at\<close>: the columns that the \<^verbatim>\<open>SET\<close> clause names.\<close>

definition with_set_clause_columns :: "checkin_row \<Rightarrow> checkin_row \<Rightarrow> checkin_row" where
  "with_set_clause_columns src r =
     r\<lparr> checkout_time := checkout_time src,
        checkout_gps_lat := checkout_gps_lat src,
        checkout_gps_lng := checkout_gps_lng src,
        checkout_photo_url := checkout_photo_url src,
        hours_worked := hours_worked src,
        row_notes := row_notes src \<rparr>"

section \<open>Properties of the distance\<close>

lemma cos_cos_half: "cos (A - B) * cos (A + B) = 1 - (sin A)\<^sup>2 - (sin B)\<^sup>2" for A B :: real
proof -
  have "cos (A - B) * cos (A + B) = (cos A)\<^sup>2 * (cos B)\<^sup>2 - (sin A)\<^sup>2 * (sin B)\<^sup>2"
    by (simp add: cos_add cos_diff power2_eq_square algebra_simps)
  also have "\<dots> = (1 - (sin A)\<^sup>2) * (1 - (sin B)\<^sup>2) - (sin A)\<^sup>2 * (sin B)\<^sup>2"
    by (simp add: cos_squared_eq)
  also have "\<dots> = 1 - (sin A)\<^sup>2 - (sin B)\<^sup>2"
    by (simp add: algebra_simps)
  finally show ?thesis .
qed

text \<open>The haversine term as a sum of two products of numbers between 0 and 1.\<close>

lemma haversine_a_alt:
  "haversine_a lat1 lon1 lat2 lon2 =
     (sin ((lat2 - lat1) * pi / 360))\<^sup>2 * (1 - (sin ((lon2 - lon1) * pi / 360))\<^sup>2) +
     (sin ((lon2 - lon1) * pi / 360))\<^sup>2 * (1 - (sin ((lat1 + lat2) * pi / 360))\<^sup>2)"
proof -
  define A where "A = (lat1 + lat2) * pi / 360"
  define B where "B = (lat2 - lat1) * pi / 360"
  have p1: "lat1 * pi / 180 = A - B" and p2: "lat2 * pi / 180 = A + B"
    by (simp_all add: A_def B_def field_simps)
  have cc: "cos (lat1 * pi / 180) * cos (lat2 * pi / 180) = 1 - (sin A)\<^sup>2 - (sin B)\<^sup>2"
    unfolding p1 p2 by (rule cos_cos_half)
  have "haversine_a lat1 lon1 lat2 lon2 =
      (sin B)\<^sup>2 + (cos (lat1 * pi / 180) * cos (lat2 * pi / 180)) * (sin ((lon2 - lon1) * pi / 360))\<^sup>2"
    by (simp add: haversine_a_def Let_def B_def power2_eq_square)
  also have "\<dots> = (sin B)\<^sup>2 * (1 - (sin ((lon2 - lon1) * pi / 360))\<^sup>2) +
     (sin ((lon2 - lon1) * pi / 360))\<^sup>2 * (1 - (sin A)\<^sup>2)"
    unfolding cc by (simp add: algebra_simps)
  finally show ?thesis by (simp add: A_def B_def)
qed

lemma sin_sq_le_1: "(sin (x::real))\<^sup>2 \<le> 1"
  by (simp add: abs_square_le_1 abs_sin_le_one)

lemma haversine_a_ge_0: "0 \<le> haversine_a lat1 lon1 lat2 lon2"
  unfolding haversine_a_alt using sin_sq_le_1 by (simp add: mult_nonneg_nonneg)

lemma haversine_a_le_1: "haversine_a lat1 lon1 lat2 lon2 \<le> 1"
proof -
  let ?s = "(sin ((lat2 - lat1) * pi / 360))\<^sup>2"
  let ?t = "(sin ((lon2 - lon1) * pi / 360))\<^sup>2"
  let ?u = "(sin ((lat1 + lat2) * pi / 360))\<^sup>2"
  have "?s * (1 - ?t) \<le> 1 * (1 - ?t)"
    by (rule mult_right_mono) (simp_all add: sin_sq_le_1)
  moreover have "?t * (1 - ?u) \<le> ?t * 1"
    by (rule mult_left_mono) simp_all
  ultimately show ?thesis unfolding haversine_a_alt by simp
qed

lemma atan2_nonneg: "0 \<le> y \<Longrightarrow> 0 \<le> x \<Longrightarrow> 0 \<le> atan2 y x"
  by (simp add: atan2_def)

lemma atan2_eq_0_iff: "0 \<le> y \<Longrightarrow> 0 \<le> x \<Longrightarrow> atan2 y x = 0 \<longleftrightarrow> y = 0"
  by (auto simp: atan2_def arctan_eq_zero_iff)

lemma calculateDistance_nonneg: "0 \<le> calculateDistance lat1 lon1 lat2 lon2"
  by (simp add: calculateDistance_def Let_def atan2_nonneg haversine_a_ge_0 haversine_a_le_1)

lemma calculateDistance_eq_0_iff:
  "calculateDistance lat1 lon1 lat2 lon2 = 0 \<longleftrightarrow> haversine_a lat1 lon1 lat2 lon2 = 0"
  by (simp add: calculateDistance_def Let_def atan2_eq_0_iff haversine_a_ge_0 haversine_a_le_1)

lemma calculateDistance_same: "calculateDistance lat lon lat lon = 0"
  by (simp add: calculateDistance_eq_0_iff haversine_a_def Let_def)

lemma sin_half_turn_zero:
  assumes "- pi \<le> x" "x \<le> pi"
  shows "sin x = 0 \<longleftrightarrow> x = 0 \<or> x = pi \<or> x = - pi"
proof
  assume "sin x = 0"
  show "x = 0 \<or> x = pi \<or> x = - pi"
  proof (rule ccontr)
    assume n: "\<not> (x = 0 \<or> x = pi \<or> x = - pi)"
    with assms have "- pi < x" "x < pi" by auto
    with \<open>sin x = 0\<close> have "x = 0" using sin_eq_0_pi by blast
    with n show False by simp
  qed
next
  assume "x = 0 \<or> x = pi \<or> x = - pi"
  then show "sin x = 0" by auto
qed

lemma cos_quarter_turn_zero:
  assumes "- (pi / 2) \<le> x" "x \<le> pi / 2"
  shows "cos x = 0 \<longleftrightarrow> x = pi / 2 \<or> x = - (pi / 2)"
proof
  assume c: "cos x = 0"
  show "x = pi / 2 \<or> x = - (pi / 2)"
  proof (rule ccontr)
    assume n: "\<not> (x = pi / 2 \<or> x = - (pi / 2))"
    with assms have "- (pi / 2) < x" "x < pi / 2" by auto
    then have "0 < cos x" by (rule cos_gt_zero_pi)
    with c show False by simp
  qed
next
  assume "x = pi / 2 \<or> x = - (pi / 2)"
  then show "cos x = 0" by (metis cos_pi_half cos_minus)
qed

lemma scale_pi:
  assumes "- k \<le> x" "x \<le> (k::real)"
  shows "- (k * pi) \<le> x * pi" "x * pi \<le> k * pi"
proof -
  from assms have "(- k) * pi \<le> x * pi" "x * pi \<le> k * pi"
    by (intro mult_right_mono; simp)+
  then show "- (k * pi) \<le> x * pi" "x * pi \<le> k * pi" by simp_all
qed

lemma pi_multiple_eq:
  assumes "c \<noteq> (0::real)"
  shows "x * pi / c = k * pi \<longleftrightarrow> x = k * c"
proof -
  have "x * pi / c = k * pi \<longleftrightarrow> (x / c) * pi = k * pi" by simp
  also have "\<dots> \<longleftrightarrow> x / c = k" by (simp only: mult_cancel_right) simp
  also have "\<dots> \<longleftrightarrow> x = k * c" using assms by (simp add: field_simps)
  finally show ?thesis .
qed

lemma lat_radians:
  assumes "- 90 \<le> lat" "lat \<le> 90"
  shows "- (pi / 2) \<le> lat * pi / 180" "lat * pi / 180 \<le> pi / 2"
proof -
  from assms have "- (90 * pi) \<le> lat * pi" "lat * pi \<le> 90 * pi"
    using scale_pi [of 90 lat] by simp_all
  then show "- (pi / 2) \<le> lat * pi / 180" "lat * pi / 180 \<le> pi / 2"
    by (simp_all add: field_simps)
qed

text \<open>Where the haversine term of two valid coordinates vanishes: the latitudes are equal,
  and the longitudes are equal or a full turn apart, or the common latitude is a pole.\<close>

lemma haversine_a_zero_iff:
  assumes "valid_coordinate lat1 lon1" "valid_coordinate lat2 lon2"
  shows "haversine_a lat1 lon1 lat2 lon2 = 0 \<longleftrightarrow>
           lat1 = lat2 \<and> (lon1 = lon2 \<or> \<bar>lon2 - lon1\<bar> = 360 \<or> \<bar>lat1\<bar> = 90)"
proof -
  define s where "s = sin ((lat2 - lat1) * pi / 360)"
  define t where "t = sin ((lon2 - lon1) * pi / 360)"
  define c1 where "c1 = cos (lat1 * pi / 180)"
  define c2 where "c2 = cos (lat2 * pi / 180)"
  have a: "haversine_a lat1 lon1 lat2 lon2 = s\<^sup>2 + c1 * c2 * t\<^sup>2"
    by (simp add: haversine_a_def Let_def s_def t_def c1_def c2_def power2_eq_square)
  have r1: "- (pi / 2) \<le> lat1 * pi / 180" "lat1 * pi / 180 \<le> pi / 2"
    using assms(1) lat_radians [of lat1] unfolding valid_coordinate_def by blast+
  have r2: "- (pi / 2) \<le> lat2 * pi / 180" "lat2 * pi / 180 \<le> pi / 2"
    using assms(2) lat_radians [of lat2] unfolding valid_coordinate_def by blast+
  have c1: "0 \<le> c1" unfolding c1_def using r1 by (rule cos_ge_zero)
  have c2: "0 \<le> c2" unfolding c2_def using r2 by (rule cos_ge_zero)
  have rs: "- pi < (lat2 - lat1) * pi / 360" "(lat2 - lat1) * pi / 360 < pi"
  proof -
    have "- 180 \<le> lat2 - lat1" "lat2 - lat1 \<le> 180"
      using assms by (simp_all add: valid_coordinate_def)
    then have "- (180 * pi) \<le> (lat2 - lat1) * pi" "(lat2 - lat1) * pi \<le> 180 * pi"
      using scale_pi [of 180 "lat2 - lat1"] by simp_all
    then show "- pi < (lat2 - lat1) * pi / 360" "(lat2 - lat1) * pi / 360 < pi"
      using pi_gt_zero by linarith+
  qed
  have s0: "s = 0 \<longleftrightarrow> lat1 = lat2"
  proof
    assume "s = 0"
    then have "(lat2 - lat1) * pi / 360 = 0"
      unfolding s_def using rs sin_eq_0_pi by blast
    then show "lat1 = lat2" by simp
  qed (simp add: s_def)
  have rt: "- pi \<le> (lon2 - lon1) * pi / 360" "(lon2 - lon1) * pi / 360 \<le> pi"
  proof -
    have "- 360 \<le> lon2 - lon1" "lon2 - lon1 \<le> 360"
      using assms by (simp_all add: valid_coordinate_def)
    then have "- (360 * pi) \<le> (lon2 - lon1) * pi" "(lon2 - lon1) * pi \<le> 360 * pi"
      using scale_pi [of 360 "lon2 - lon1"] by simp_all
    then show "- pi \<le> (lon2 - lon1) * pi / 360" "(lon2 - lon1) * pi / 360 \<le> pi"
      by (simp_all add: field_simps)
  qed
  have t0: "t = 0 \<longleftrightarrow> lon1 = lon2 \<or> \<bar>lon2 - lon1\<bar> = 360"
  proof -
    have "t = 0 \<longleftrightarrow> (lon2 - lon1) * pi / 360 = 0 \<or> (lon2 - lon1) * pi / 360 = pi
        \<or> (lon2 - lon1) * pi / 360 = - pi"
      unfolding t_def using rt by (rule sin_half_turn_zero)
    also have "\<dots> \<longleftrightarrow> lon2 - lon1 = 0 \<or> lon2 - lon1 = 360 \<or> lon2 - lon1 = - 360"
      using pi_multiple_eq [of 360 "lon2 - lon1" 1] pi_multiple_eq [of 360 "lon2 - lon1" "- 1"]
      by simp
    also have "\<dots> \<longleftrightarrow> lon1 = lon2 \<or> \<bar>lon2 - lon1\<bar> = 360"
      by auto
    finally show ?thesis .
  qed
  have c10: "c1 = 0 \<longleftrightarrow> \<bar>lat1\<bar> = 90"
  proof -
    have "c1 = 0 \<longleftrightarrow> lat1 * pi / 180 = pi / 2 \<or> lat1 * pi / 180 = - (pi / 2)"
      unfolding c1_def using r1 by (rule cos_quarter_turn_zero)
    also have "\<dots> \<longleftrightarrow> lat1 = 90 \<or> lat1 = - 90"
      using pi_multiple_eq [of 180 lat1 "1 / 2"] pi_multiple_eq [of 180 lat1 "- (1 / 2)"]
      by simp
    also have "\<dots> \<longleftrightarrow> \<bar>lat1\<bar> = 90" by auto
    finally show ?thesis .
  qed
  have "s\<^sup>2 + c1 * c2 * t\<^sup>2 = 0 \<longleftrightarrow> s\<^sup>2 = 0 \<and> c1 * c2 * t\<^sup>2 = 0"
    using c1 c2 by (intro add_nonneg_eq_0_iff) (simp_all add: mult_nonneg_nonneg)
  also have "\<dots> \<longleftrightarrow> s = 0 \<and> (c1 = 0 \<or> c2 = 0 \<or> t = 0)"
    by simp
  also have "\<dots> \<longleftrightarrow> lat1 = lat2 \<and> (c1 = 0 \<or> t = 0)"
    using s0 by (auto simp: c1_def c2_def)
  also have "\<dots> \<longleftrightarrow> lat1 = lat2 \<and> (lon1 = lon2 \<or> \<bar>lon2 - lon1\<bar> = 360 \<or> \<bar>lat1\<bar> = 90)"
    using t0 c10 by auto
  finally show ?thesis unfolding a .
qed

text \<open>Along a meridian the distance is the arc length.\<close>

lemma atan2_sin_cos:
  assumes "0 \<le> x" "x < pi / 2"
  shows "atan2 (sin x) (cos x) = x"
proof -
  have c: "0 < cos x" using assms by (intro cos_gt_zero_pi) linarith+
  have "atan2 (sin x) (cos x) = arctan (tan x)"
    using c by (simp add: atan2_def tan_def)
  also have "\<dots> = x" using assms by (intro arctan_tan) linarith+
  finally show ?thesis .
qed

lemma calculateDistance_meridian:
  assumes "\<bar>lat2 - lat1\<bar> < 180"
  shows "calculateDistance lat1 lon lat2 lon = 6371000 * \<bar>lat2 - lat1\<bar> * pi / 180"
proof -
  define x where "x = \<bar>lat2 - lat1\<bar> * pi / 360"
  have x0: "0 \<le> x" by (simp add: x_def)
  have "\<bar>lat2 - lat1\<bar> * pi < 180 * pi"
    using assms by (intro mult_strict_right_mono) simp_all
  then have x1: "x < pi / 2" by (simp add: x_def)
  have s: "0 \<le> sin x" using x0 x1 pi_gt_zero by (intro sin_ge_zero) linarith+
  have c: "0 < cos x" using x0 x1 by (intro cos_gt_zero_pi) linarith+
  have xa: "x = \<bar>(lat2 - lat1) * pi / 360\<bar>"
    by (simp add: x_def abs_mult)
  have "(sin ((lat2 - lat1) * pi / 360))\<^sup>2 = (sin x)\<^sup>2"
    unfolding xa by (cases "0 \<le> (lat2 - lat1) * pi / 360") (simp_all add: abs_if)
  then have a: "haversine_a lat1 lon lat2 lon = (sin x)\<^sup>2"
    by (simp add: haversine_a_def Let_def power2_eq_square)
  have "1 - (sin x)\<^sup>2 = (cos x)\<^sup>2" by (simp add: cos_squared_eq)
  then have "calculateDistance lat1 lon lat2 lon = 6371000 * (2 * atan2 (sin x) (cos x))"
    using s c by (simp add: calculateDistance_def Let_def a)
  also have "\<dots> = 6371000 * (2 * x)"
    using x0 x1 by (simp add: atan2_sin_cos)
  finally show ?thesis by (simp add: x_def)
qed

lemma pi_ge_3: "3 \<le> pi"
  using sin_x_le_x [of "pi / 6"] by (simp add: sin_30)




section \<open>Properties of the double-precision quotient\<close>

lemma round_ties_even_error: "\<bar>of_int (round_ties_even x) - x\<bar> \<le> 1 / 2"
proof -
  have "of_int \<lfloor>x\<rfloor> \<le> x" "x < of_int \<lfloor>x\<rfloor> + 1" by linarith+
  then show ?thesis
    by (auto simp: round_ties_even_def Let_def)
qed

lemma bitlen_real_bounds:
  assumes "0 < x"
  shows "2 powi (bitlen x - 1) \<le> (of_int x :: real)" "(of_int x :: real) < 2 powi (bitlen x)"
proof -
  have b: "2 ^ nat (bitlen x - 1) \<le> x" "x < 2 ^ nat (bitlen x)"
    using bitlen_bounds [OF assms] by simp_all
  have ge1: "1 \<le> bitlen x"
    using assms bitlen_eq_zero_iff [of x] bitlen_nonneg [of x] by linarith
  have "(of_int (2 ^ nat (bitlen x - 1)) :: real) \<le> of_int x"
    using b(1) by (simp only: of_int_le_iff)
  then show "2 powi (bitlen x - 1) \<le> (of_int x :: real)"
    using ge1 by (simp add: power_int_nonneg_exp)
  have "(of_int x :: real) < of_int (2 ^ nat (bitlen x))"
    using b(2) by (simp only: of_int_less_iff)
  then show "(of_int x :: real) < 2 powi (bitlen x)"
    using ge1 by (simp add: power_int_nonneg_exp)
qed

text \<open>\<open>double_exponent\<close> is the binary exponent of the quotient.\<close>

lemma double_exponent_lower:
  assumes "0 < p" "0 < q"
  shows "of_int q * 2 powi (double_exponent p q) \<le> (of_int p :: real)"
proof (cases "of_int q * 2 powi (bitlen p - bitlen q) \<le> (of_int p :: real)")
  case True
  then show ?thesis by (simp add: double_exponent_def Let_def)
next
  case False
  have "(of_int q :: real) * 2 powi (bitlen p - bitlen q - 1)
          \<le> 2 powi (bitlen q) * 2 powi (bitlen p - bitlen q - 1)"
    using bitlen_real_bounds(2) [OF assms(2)] by (intro mult_right_mono) simp_all
  also have "\<dots> = 2 powi (bitlen p - 1)"
    by (simp add: power_int_add [symmetric])
  also have "\<dots> \<le> of_int p"
    using bitlen_real_bounds(1) [OF assms(1)] .
  finally show ?thesis using False by (simp add: double_exponent_def Let_def)
qed

lemma double_exponent_upper:
  assumes "0 < p" "0 < q"
  shows "(of_int p :: real) < of_int q * 2 powi (double_exponent p q + 1)"
proof (cases "of_int q * 2 powi (bitlen p - bitlen q) \<le> (of_int p :: real)")
  case True
  have "(of_int p :: real) < 2 powi (bitlen p)"
    using bitlen_real_bounds(2) [OF assms(1)] .
  also have "\<dots> = 2 powi (bitlen q - 1) * 2 powi (bitlen p - bitlen q + 1)"
    by (simp add: power_int_add [symmetric])
  also have "\<dots> \<le> of_int q * 2 powi (bitlen p - bitlen q + 1)"
    using bitlen_real_bounds(1) [OF assms(2)] by (intro mult_right_mono) simp_all
  finally show ?thesis using True by (simp add: double_exponent_def Let_def)
next
  case False
  then show ?thesis by (simp add: double_exponent_def Let_def)
qed

text \<open>The relative error of the quotient is at most \<open>2 ^ -53\<close>.\<close>

lemma double_div_pos_error:
  assumes "0 < p" "0 < q"
  shows "\<bar>double_div_pos p q - of_int p / of_int q\<bar> \<le> (of_int p / of_int q) / 2 ^ 53"
proof -
  define L where "L = double_exponent p q"
  define e where "e = L - 52"
  define x :: real where "x = of_int p / of_int q"
  define m where "m = round_ties_even (x / 2 powi e)"
  have qpos: "0 < (of_int q :: real)" using assms by simp
  have y: "double_div_pos p q = of_int m * 2 powi e"
    by (simp add: double_div_pos_def Let_def m_def e_def L_def x_def)
  have "\<bar>of_int m - x / 2 powi e\<bar> \<le> 1 / 2"
    unfolding m_def by (rule round_ties_even_error)
  then have "\<bar>of_int m - x / 2 powi e\<bar> * 2 powi e \<le> 1 / 2 * 2 powi e"
    by (intro mult_right_mono) simp_all
  moreover have "\<bar>of_int m - x / 2 powi e\<bar> * 2 powi e = \<bar>of_int m * 2 powi e - x\<bar>"
  proof -
    have "\<bar>of_int m - x / 2 powi e\<bar> * 2 powi e = \<bar>(of_int m - x / 2 powi e) * 2 powi e\<bar>"
      by (simp add: abs_mult)
    also have "(of_int m - x / 2 powi e) * 2 powi e = of_int m * 2 powi e - x"
      by (simp add: algebra_simps)
    finally show ?thesis .
  qed
  ultimately have err: "\<bar>of_int m * 2 powi e - x\<bar> \<le> 2 powi e / 2" by simp
  have "of_int q * 2 powi L \<le> (of_int p :: real)"
    unfolding L_def using assms by (rule double_exponent_lower)
  then have lo: "2 powi L \<le> x"
    unfolding x_def using qpos by (simp add: field_simps)
  have "(2::real) powi e / 2 = 2 powi L / 2 ^ 53"
  proof -
    have "(2::real) powi L = 2 powi (e + 52)" by (simp add: e_def)
    also have "\<dots> = 2 powi e * 2 ^ 52" by (simp add: power_int_add)
    finally show ?thesis by simp
  qed
  also have "\<dots> \<le> x / 2 ^ 53"
    using lo by (simp add: divide_right_mono)
  finally have "2 powi e / 2 \<le> x / 2 ^ 53" .
  with err show ?thesis unfolding y x_def by linarith
qed

lemma double_div_pos_nonneg:
  assumes "0 < p" "0 < q"
  shows "0 \<le> double_div_pos p q"
proof -
  have "0 \<le> (of_int p :: real) / (of_int q * 2 powi (double_exponent p q - 52))"
    using assms by simp
  then have "0 \<le> round_ties_even (of_int p / (of_int q * 2 powi (double_exponent p q - 52)))"
    by (auto simp: round_ties_even_def Let_def)
  then show ?thesis
    by (simp add: double_div_pos_def Let_def)
qed

lemma half_up2_hours:
  "half_up2 (of_int p / 3600000) = of_int ((p + 18000) div 36000) / 100"
proof -
  have "of_int p / 3600000 * 100 + 1 / 2 = (of_int (p + 18000) :: real) / of_int 36000"
    by simp
  then have "\<lfloor>of_int p / 3600000 * 100 + 1 / 2 :: real\<rfloor> = (p + 18000) div 36000"
    by (simp only: floor_divide_of_int_eq)
  then show ?thesis by (simp add: half_up2_def)
qed

text \<open>Away from the ties of the rounding to two places, \<^verbatim>\<open>toFixed(2)\<close> of the double
  quotient is the half-up rounding of the exact quotient.\<close>

lemma toFixed2_double_div:
  assumes "0 \<le> p" "p < 2 ^ 53" "p mod 36000 \<noteq> 18000"
  shows "toFixed2 (double_div p 3600000) = of_int ((p + 18000) div 36000) / 100"
proof (cases "p = 0")
  case True
  then show ?thesis by (simp add: double_div_def toFixed2_def)
next
  case False
  with assms have pos: "0 < p" by simp
  define y where "y = double_div_pos p 3600000"
  define x :: real where "x = of_int p / 3600000"
  define k where "k = (p + 18000) div 36000"
  define r where "r = (p + 18000) mod 36000"
  have y0: "0 \<le> y" unfolding y_def using pos by (intro double_div_pos_nonneg) simp_all
  have "\<bar>y - of_int p / of_int 3600000\<bar> \<le> (of_int p / of_int 3600000) / 2 ^ 53"
    unfolding y_def using pos by (intro double_div_pos_error) simp_all
  then have err: "\<bar>y - x\<bar> \<le> x / 2 ^ 53" by (simp add: x_def)
  have "(of_int p :: real) < 2 ^ 53"
    using assms(2) by (metis of_int_less_iff of_int_numeral of_int_power)
  then have "x / 2 ^ 53 < 1 / 3600000"
    by (simp add: x_def)
  with err have close: "\<bar>y - x\<bar> < 1 / 3600000" by linarith
  have split: "p + 18000 = 36000 * k + r"
    by (simp add: k_def r_def)
  have r: "1 \<le> r" "r \<le> 35999"
  proof -
    have "0 \<le> r" "r < 36000" by (simp_all add: r_def)
    moreover have "r \<noteq> 0"
    proof
      assume "r = 0"
      with split have "p + 18000 = 36000 * k" by simp
      then have "p = 18000 + 36000 * (k - 1)" by simp
      then have "p mod 36000 = 18000 mod 36000" by (simp only: mod_mult_self2)
      with assms(3) show False by simp
    qed
    ultimately show "1 \<le> r" "r \<le> 35999" by simp_all
  qed
  from split have "(of_int p :: real) + 18000 = 36000 * of_int k + of_int r"
    by (metis of_int_add of_int_mult of_int_numeral)
  then have x: "x * 100 + 1 / 2 = of_int k + of_int r / 36000"
    by (simp add: x_def field_simps)
  have rr: "1 \<le> (of_int r :: real)" "(of_int r :: real) \<le> 35999"
    using r by simp_all
  have "of_int k \<le> y * 100 + 1 / 2" "y * 100 + 1 / 2 < of_int k + 1"
    using close x rr by linarith+
  then have "\<lfloor>y * 100 + 1 / 2\<rfloor> = k"
    by (intro floor_unique) simp_all
  then show ?thesis
    using y0 pos by (simp add: double_div_def toFixed2_def y_def k_def)
qed

text \<open>A value with two decimal places is stored as it is in a \<^verbatim>\<open>DECIMAL(5,2)\<close> column.\<close>

lemma pg_round_toFixed2: "pg_round 2 (toFixed2 x) = toFixed2 x"
proof -
  have n: "\<lfloor>(of_int n :: real) / 100 * 100 + 1 / 2\<rfloor> = n" for n :: int
    by (intro floor_unique) simp_all
  show ?thesis
  proof (cases "x < 0")
    case True
    define n where "n = \<lfloor>(- x) * 100 + 1 / 2\<rfloor>"
    have n0: "0 \<le> n" unfolding n_def using True by simp
    have t: "toFixed2 x = - (of_int n / 100)"
      using True by (simp add: toFixed2_def n_def)
    show ?thesis
    proof (cases "n = 0")
      case True
      then show ?thesis by (simp add: t pg_round_def)
    next
      case False
      with n0 have "0 < n" by simp
      then have "- (real_of_int n / 100) < 0" by simp
      then show ?thesis using n [of n] by (simp add: t pg_round_def)
    qed
  next
    case False
    define n where "n = \<lfloor>x * 100 + 1 / 2\<rfloor>"
    have n0: "0 \<le> n" unfolding n_def using False by simp
    have t: "toFixed2 x = of_int n / 100"
      using False by (simp add: toFixed2_def n_def)
    have "\<not> real_of_int n / 100 < 0" using n0 by simp
    then show ?thesis using n [of n] by (simp add: t pg_round_def)
  qed
qed

text \<open>Three quotients of the sample runs: 54 seconds, one hour and 18 seconds, two and a
  half hours.\<close>

lemma hours_54_seconds: "toFixed2 (double_div 54000 3600000) = 1 / 100"
  by code_simp

lemma hours_1h_18s: "toFixed2 (double_div 3618000 3600000) = 1"
  by code_simp

lemma hours_2h_30m: "toFixed2 (double_div 9000000 3600000) = 5 / 2"
  by code_simp

section \<open>Properties of the routes\<close>

lemma step_simps [simp]:
  "step s (CheckIn uid body_in now db_now) = snd (checkin s uid body_in now db_now)"
  "step s (CheckOut uid body_out now db_now) = snd (checkout s uid body_out now db_now)"
  "step s (GetCheckins q) = s"
  "step s (GetActive uid) = s"
  by (simp_all add: step_def)

subsection \<open>The shape of a check-in\<close>

lemma checkin_invalid:
  assumes "falsy_id (projectId body) \<or> falsy_number (gpsLat body) \<or> falsy_number (gpsLng body)"
  shows "checkin s uid body now db_now = (Inl MissingFields, s)"
  using assms by (simp add: checkin_def)

lemma checkin_validated:
  assumes "projectId body = Some pid" "pid \<noteq> 0"
    and "gpsLat body = Some lat" "lat \<noteq> 0"
    and "gpsLng body = Some lng" "lng \<noteq> 0"
  shows "checkin s uid body now db_now =
     (case select_worker_id s uid of
        None \<Rightarrow> (Inl WorkerNotFound, s)
      | Some workerId \<Rightarrow>
          (case select_project s pid of
             None \<Rightarrow> (Inl ProjectNotFound, s)
           | Some project \<Rightarrow>
               (case geofence_check project lat lng of
                  Some e \<Rightarrow> (Inl e, s)
                | None \<Rightarrow>
                    checkin_record s workerId pid lat lng (photoUrl body)
                      (scheduledTime body) now db_now)))"
  using assms by (simp add: checkin_def falsy_id_def falsy_number_def)

lemma checkin_body_cases:
  obtains (invalid) "falsy_id (projectId body) \<or> falsy_number (gpsLat body) \<or> falsy_number (gpsLng body)"
  | (valid) pid lat lng where "projectId body = Some pid" "pid \<noteq> 0"
      "gpsLat body = Some lat" "lat \<noteq> 0" "gpsLng body = Some lng" "lng \<noteq> 0"
proof (cases "falsy_id (projectId body) \<or> falsy_number (gpsLat body) \<or> falsy_number (gpsLng body)")
  case True
  then show ?thesis by (rule invalid)
next
  case False
  then obtain pid lat lng where "projectId body = Some pid" "pid \<noteq> 0"
      "gpsLat body = Some lat" "lat \<noteq> 0" "gpsLng body = Some lng" "lng \<noteq> 0"
    by (cases "projectId body"; cases "gpsLat body"; cases "gpsLng body")
       (auto simp: falsy_id_def falsy_number_def)
  then show ?thesis by (rule valid)
qed

lemma insert_checkin_Some:
  assumes "insert_checkin s w pid lat lng photo late db_now = Some (row, s')"
  shows "checkins s' = checkins s @ [row]" "workers s' = workers s" "projects s' = projects s"
    "worker_id row = w" "checkout_time row = None" "is_late row = late"
    "checkin_time row = db_now" "row_id row = checkins_id_seq s"
  using assms by (auto simp: insert_checkin_def Let_def split: option.splits)

lemma checkin_record_cases:
  assumes "checkin_record s w pid lat lng photo sched now db_now = (r, s')"
  obtains (rejected) "s' = s" "isl r"
  | (created) row where "r = Inr row" "active_checkins s w = []"
      "insert_checkin s w pid lat lng (or_null photo)
         (case sched of None \<Rightarrow> False | Some t \<Rightarrow> t < now) db_now = Some (row, s')"
  using assms
  by (auto simp: checkin_record_def Let_def split: list.splits option.splits)

lemma checkin_record_not_geofence:
  "\<not> geofence_rejected (fst (checkin_record s w pid lat lng photo sched now db_now))"
  by (auto simp: checkin_record_def Let_def split: list.splits option.splits)

lemma geofence_check_Some:
  assumes "geofence_check project lat lng = Some e"
  shows "geofence_rejected (Inl e)"
  using assms
  by (auto simp: geofence_check_def Let_def split: option.splits if_splits)

text \<open>A check-in leaves the database as it is, or appends one open row of a worker who had
  no open row.\<close>

lemma checkin_cases:
  assumes "checkin s uid body now db_now = (r, s')"
  obtains (rejected) "s' = s" "isl r"
  | (created) row w pid lat lng where "r = Inr row" "select_worker_id s uid = Some w"
      "active_checkins s w = []"
      "insert_checkin s w pid lat lng (or_null (photoUrl body))
         (case scheduledTime body of None \<Rightarrow> False | Some t \<Rightarrow> t < now) db_now = Some (row, s')"
proof (cases body rule: checkin_body_cases)
  case invalid
  then have "checkin s uid body now db_now = (Inl MissingFields, s)" by (rule checkin_invalid)
  with assms show ?thesis by (intro rejected) auto
next
  case (valid pid lat lng)
  note v = checkin_validated [OF valid, of s uid now db_now]
  show ?thesis
  proof (cases "select_worker_id s uid")
    case None
    with v assms show ?thesis by (intro rejected) simp_all
  next
    case w: (Some w)
    show ?thesis
    proof (cases "select_project s pid")
      case None
      with v w assms show ?thesis by (intro rejected) simp_all
    next
      case p: (Some project)
      show ?thesis
      proof (cases "geofence_check project lat lng")
        case (Some e)
        with v w p assms show ?thesis by (intro rejected) simp_all
      next
        case None
        with v w p assms
        have rec: "checkin_record s w pid lat lng (photoUrl body) (scheduledTime body) now db_now
                     = (r, s')" by simp
        then show ?thesis
        proof (cases rule: checkin_record_cases)
          case rejected
          then show ?thesis by (intro that(1))
        next
          case (created row)
          then show ?thesis using w by (intro that(2)) simp_all
        qed
      qed
    qed
  qed
qed

subsection \<open>The shape of a check-out\<close>

lemma checkout_invalid:
  assumes "falsy_number (gpsLat body) \<or> falsy_number (gpsLng body)"
  shows "checkout s uid body now db_now = (Inl MissingFields, s)"
  using assms by (simp add: checkout_def)

lemma checkout_validated:
  assumes "gpsLat body = Some lat" "lat \<noteq> 0" "gpsLng body = Some lng" "lng \<noteq> 0"
  shows "checkout s uid body now db_now =
     (case select_worker_id s uid of
        None \<Rightarrow> (Inl WorkerNotFound, s)
      | Some workerId \<Rightarrow>
          (case order_by_checkin_time_desc (active_checkins s workerId) of
             [] \<Rightarrow> (Inl NoActiveShift, s)
           | c # _ \<Rightarrow>
               (case update_checkout s c lat lng (or_null (photoUrl body))
                       (toFixed2 (double_div (now - checkin_time c) 3600000))
                       (or_null (notes_field body)) db_now of
                  None \<Rightarrow> (Inl InternalError, s)
                | Some (row, s') \<Rightarrow>
                    (Inr (row, toFixed2 (double_div (now - checkin_time c) 3600000)), s'))))"
  using assms
  by (simp add: checkout_def falsy_number_def Let_def split: option.splits list.splits)

lemma checkout_body_cases:
  obtains (invalid) "falsy_number (gpsLat body) \<or> falsy_number (gpsLng body)"
  | (valid) lat lng where "gpsLat body = Some lat" "lat \<noteq> 0" "gpsLng body = Some lng" "lng \<noteq> 0"
proof (cases "falsy_number (gpsLat body) \<or> falsy_number (gpsLng body)")
  case True
  then show ?thesis by (rule invalid)
next
  case False
  then obtain lat lng where "gpsLat body = Some lat" "lat \<noteq> 0" "gpsLng body = Some lng" "lng \<noteq> 0"
    by (cases "gpsLat body"; cases "gpsLng body") (auto simp: falsy_number_def)
  then show ?thesis by (rule valid)
qed

lemma order_by_checkin_time_desc_set [simp]:
  "set (order_by_checkin_time_desc rows) = set rows"
  by (simp add: order_by_checkin_time_desc_def)

lemma order_by_checkin_time_desc_empty [simp]: "order_by_checkin_time_desc [] = []"
  by (simp add: order_by_checkin_time_desc_def)

lemma order_by_checkin_time_desc_Nil [simp]:
  "order_by_checkin_time_desc rows = [] \<longleftrightarrow> rows = []"
  by (metis order_by_checkin_time_desc_set set_empty)

lemma update_checkout_Some:
  assumes "update_checkout s c lat lng photo hours nts db_now = Some (row, s')"
  obtains slat slng h where
    "pg_numeric 10 8 lat = Some slat" "pg_numeric 11 8 lng = Some slng"
    "pg_numeric 5 2 hours = Some h"
    "row = close_row slat slng photo h nts db_now c"
    "s' = s\<lparr> checkins := map (\<lambda>r. if row_id r = row_id c
                                   then close_row slat slng photo h nts db_now r else r)
                             (checkins s) \<rparr>"
  using assms by (auto simp: update_checkout_def split: option.splits)

text \<open>A check-out leaves the database as it is, or closes the rows that carry the
  identifier of an open row of the worker.\<close>

lemma checkout_cases:
  assumes "checkout s uid body now db_now = (r, s')"
  obtains (rejected) "s' = s" "isl r"
  | (closed) w c lat lng row where "select_worker_id s uid = Some w"
      "c \<in> set (active_checkins s w)"
      "gpsLat body = Some lat" "gpsLng body = Some lng"
      "r = Inr (row, toFixed2 (double_div (now - checkin_time c) 3600000))"
      "update_checkout s c lat lng (or_null (photoUrl body))
         (toFixed2 (double_div (now - checkin_time c) 3600000))
         (or_null (notes_field body)) db_now = Some (row, s')"
proof (cases body rule: checkout_body_cases)
  case invalid
  then have "checkout s uid body now db_now = (Inl MissingFields, s)" by (rule checkout_invalid)
  with assms show ?thesis by (intro rejected) auto
next
  case (valid lat lng)
  note v = checkout_validated [OF valid, of s uid now db_now]
  show ?thesis
  proof (cases "select_worker_id s uid")
    case None
    with v assms show ?thesis by (intro rejected) simp_all
  next
    case w: (Some w)
    show ?thesis
    proof (cases "order_by_checkin_time_desc (active_checkins s w)")
      case Nil
      with v w assms show ?thesis by (intro rejected) simp_all
    next
      case (Cons c cs)
      then have "c \<in> set (order_by_checkin_time_desc (active_checkins s w))" by simp
      then have cin: "c \<in> set (active_checkins s w)" by simp
      show ?thesis
      proof (cases "update_checkout s c lat lng (or_null (photoUrl body))
                      (toFixed2 (double_div (now - checkin_time c) 3600000))
                      (or_null (notes_field body)) db_now")
        case None
        with v w Cons assms show ?thesis by (intro rejected) simp_all
      next
        case (Some res)
        obtain row s2 where res: "res = (row, s2)" by (cases res)
        with v w Cons Some assms
        have "r = Inr (row, toFixed2 (double_div (now - checkin_time c) 3600000))" "s' = s2"
          by simp_all
        with w cin valid Some res show ?thesis by (intro closed) simp_all
      qed
    qed
  qed
qed

subsection \<open>The ledger invariant\<close>

lemma active_checkins_append:
  assumes "checkins s' = checkins s @ [row]"
  shows "active_checkins s' w =
     active_checkins s w @ (if worker_id row = w \<and> checkout_time row = None then [row] else [])"
  using assms by (simp add: active_checkins_def)

lemma length_filter_map_le:
  assumes "\<And>x. P (f x) \<Longrightarrow> P x"
  shows "length (filter P (map f xs)) \<le> length (filter P xs)"
  using assms by (induction xs) auto

lemma active_checkins_close:
  assumes "checkins s' = map (\<lambda>r. if row_id r = i then close_row slat slng photo h nts t r else r)
                            (checkins s)"
  shows "length (active_checkins s' w) \<le> length (active_checkins s w)"
  unfolding active_checkins_def assms
  by (rule length_filter_map_le) (simp add: close_row_def split: if_splits)

lemma checkin_preserves_invariant:
  assumes "\<And>w. length (active_checkins s w) \<le> 1"
  shows "length (active_checkins (snd (checkin s uid body now db_now)) w) \<le> 1"
proof -
  obtain r s' where res: "checkin s uid body now db_now = (r, s')"
    by (cases "checkin s uid body now db_now")
  then show ?thesis
  proof (cases rule: checkin_cases)
    case rejected
    with res assms show ?thesis by simp
  next
    case (created row w0 pid lat lng)
    note ins = insert_checkin_Some [OF created(4)]
    have "length (active_checkins s' w) \<le> 1"
    proof (cases "worker_id row = w")
      case True
      with ins(4) created(3) have "active_checkins s w = []" by simp
      then show ?thesis by (simp add: active_checkins_append [OF ins(1)])
    next
      case False
      then show ?thesis using assms [of w] by (simp add: active_checkins_append [OF ins(1)])
    qed
    with res show ?thesis by simp
  qed
qed

lemma checkout_preserves_invariant:
  assumes "\<And>w. length (active_checkins s w) \<le> 1"
  shows "length (active_checkins (snd (checkout s uid body now db_now)) w) \<le> 1"
proof -
  obtain r s' where res: "checkout s uid body now db_now = (r, s')"
    by (cases "checkout s uid body now db_now")
  then show ?thesis
  proof (cases rule: checkout_cases)
    case rejected
    with res assms show ?thesis by simp
  next
    case (closed w0 c lat lng row)
    from closed(6) obtain slat slng h where
      "s' = s\<lparr> checkins := map (\<lambda>r. if row_id r = row_id c
            then close_row slat slng (or_null (photoUrl body)) h (or_null (notes_field body)) db_now r
            else r) (checkins s) \<rparr>"
      by (rule update_checkout_Some)
    then have "checkins s' = map (\<lambda>r. if row_id r = row_id c
            then close_row slat slng (or_null (photoUrl body)) h (or_null (notes_field body)) db_now r
            else r) (checkins s)" by simp
    then have "length (active_checkins s' w) \<le> length (active_checkins s w)"
      by (rule active_checkins_close)
    with assms [of w] res show ?thesis by simp
  qed
qed

lemma step_preserves_invariant:
  assumes "\<And>w. length (active_checkins s w) \<le> 1"
  shows "length (active_checkins (step s r) w) \<le> 1"
proof (cases r)
  case (CheckIn uid body now db_now)
  then show ?thesis using checkin_preserves_invariant [OF assms] by simp
next
  case (CheckOut uid body now db_now)
  then show ?thesis using checkout_preserves_invariant [OF assms] by simp
next
  case (GetCheckins q)
  then show ?thesis using assms by simp
next
  case (GetActive uid)
  then show ?thesis using assms by simp
qed

lemma run_preserves_invariant:
  assumes "\<And>w. length (active_checkins s w) \<le> 1"
  shows "length (active_checkins (foldl step s rs) w) \<le> 1"
  using assms
proof (induction rs arbitrary: s w)
  case Nil
  then show ?case by simp
next
  case (Cons r rs)
  have "length (active_checkins (foldl step (step s r) rs) w) \<le> 1"
    by (rule Cons.IH) (rule step_preserves_invariant, rule Cons.prems)
  then show ?case by simp
qed

lemma run_invariant:
  assumes "checkins s = []"
  shows "length (active_checkins (foldl step s rs) w) \<le> 1"
  by (rule run_preserves_invariant) (simp add: active_checkins_def assms)

subsection \<open>The sample runs\<close>

lemmas sample_defs =
  empty_ledger_def open_ledger_def site_worker_def riverside_def unlocated_site_def tiny_site_def
  first_shift_def body_at_site_def body_away_def body_unlocated_def body_tiny_def
  body_equator_def body_leave_def body_no_gps_def body_meridian_def
  body_scheduled_def late_shift_def late_ledger_def closed_shift_def closed_ledger_def

lemmas route_defs =
  falsy_id_def falsy_number_def or_null_def select_worker_id_def select_project_def
  active_checkins_def geofence_check_def maxDistance_def checkin_record_def insert_checkin_def
  pg_numeric_def pg_round_def Let_def

lemma sample_worker [simp]:
  "select_worker_id empty_ledger 3 = Some 7" "select_worker_id open_ledger 3 = Some 7"
  by (simp_all add: sample_defs select_worker_id_def)

lemma sample_active [simp]:
  "active_checkins empty_ledger w = []"
  "active_checkins open_ledger 7 = [first_shift]"
  by (simp_all add: sample_defs active_checkins_def)

lemma sample_projects [simp]:
  "select_project empty_ledger 1 = Some riverside"
  "select_project empty_ledger 2 = Some unlocated_site"
  "select_project empty_ledger 3 = Some tiny_site"
  "select_project open_ledger 1 = Some riverside"
  "select_project empty_ledger (Suc 0) = Some riverside"
  "select_project open_ledger (Suc 0) = Some riverside"
  by (simp_all add: sample_defs select_project_def)

text \<open>The specification's scenario: a check-in at the site's own coordinate succeeds, and
  the shift is not late when no scheduled time is given.\<close>

lemma checkin_at_site:
  "checkin empty_ledger 3 body_at_site 0 0 = (Inr first_shift, open_ledger)"
  by (simp add: checkin_def sample_defs route_defs calculateDistance_same)

lemma checkin_again:
  "checkin open_ledger 3 body_at_site now db_now = (Inl (AlreadyCheckedIn 1), open_ledger)"
  by (simp add: checkin_def body_at_site_def riverside_def falsy_id_def falsy_number_def
      geofence_check_def maxDistance_def calculateDistance_same checkin_record_def
      first_shift_def)

text \<open>About 500 metres north of the site the distance exceeds the radius.\<close>

lemma distance_away:
  "calculateDistance 30.2717 (- 97.7431) 30.2672 (- 97.7431) = 6371000 * (45 / 10000) * pi / 180"
  by (simp add: calculateDistance_meridian)

lemma distance_away_gt_100:
  "100 < calculateDistance 30.2717 (- 97.7431) 30.2672 (- 97.7431)"
  unfolding distance_away using pi_ge_3 by simp

lemma checkin_away:
  "checkin s' 3 body_away now db_now =
     (Inl (GeofenceViolation
        (js_round (calculateDistance 30.2717 (- 97.7431) 30.2672 (- 97.7431))) 100), s')"
  if "select_worker_id s' 3 = Some 7" "select_project s' 1 = Some riverside"
  using that distance_away_gt_100
  by (simp add: checkin_def body_away_def riverside_def falsy_id_def falsy_number_def
      geofence_check_def maxDistance_def Let_def)

section \<open>The claims\<close>

text \<open>
  Claim C1. For every worker, every state that requests handled one after the other reach
  from an empty \<^verbatim>\<open>checkins\<close> table holds at most one open shift of that worker; and every
  request (check-in, check-out, the list query, the active query) handled in a state where
  every worker has at most one open shift leads to a state where this is so again.
\<close>

theorem at_most_one_open_shift:
  "(checkins s0 = [] \<longrightarrow> length (active_checkins (foldl step s0 rs) w) \<le> 1) \<and>
   ((\<forall>v. length (active_checkins s v) \<le> 1) \<longrightarrow> length (active_checkins (step s r) w) \<le> 1)"
proof (intro conjI impI)
  assume "checkins s0 = []"
  then show "length (active_checkins (foldl step s0 rs) w) \<le> 1" by (rule run_invariant)
next
  assume "\<forall>v. length (active_checkins s v) \<le> 1"
  then have "\<And>v. length (active_checkins s v) \<le> 1" by blast
  then show "length (active_checkins (step s r) w) \<le> 1" by (rule step_preserves_invariant)
qed

text \<open>Claim C1 at two check-ins of worker 7 in a row, which lead from the empty ledger to
  the ledger with the one open shift, and at the check-out that follows.\<close>

theorem at_most_one_open_shift_witness:
  "checkins empty_ledger = [] \<and>
   foldl step empty_ledger [CheckIn 3 body_at_site 0 0, CheckIn 3 body_at_site 5 5] = open_ledger \<and>
   length (active_checkins
     (foldl step empty_ledger [CheckIn 3 body_at_site 0 0, CheckIn 3 body_at_site 5 5]) 7) \<le> 1 \<and>
   (\<forall>v. length (active_checkins open_ledger v) \<le> 1) \<and>
   length (active_checkins (step open_ledger (CheckOut 3 body_leave 9000000 9000005)) 7) \<le> 1"
proof -
  have e: "checkins empty_ledger = []" by (simp add: empty_ledger_def)
  have f: "foldl step empty_ledger [CheckIn 3 body_at_site 0 0, CheckIn 3 body_at_site 5 5]
             = open_ledger"
    by (simp add: checkin_at_site checkin_again)
  have i: "\<forall>v. length (active_checkins open_ledger v) \<le> 1"
    by (simp add: active_checkins_def open_ledger_def first_shift_def)
  from e f i
    at_most_one_open_shift [of empty_ledger
      "[CheckIn 3 body_at_site 0 0, CheckIn 3 body_at_site 5 5]" 7
      open_ledger "CheckOut 3 body_leave 9000000 9000005"]
  show ?thesis by blast
qed



text \<open>
  Claim C7. At a project whose latitude or longitude is not registered the geofence step
  lets every reported coordinate pass, and a check-in at that project is never answered
  with a geofence violation.
\<close>

theorem unregistered_site_skips_geofence:
  assumes "select_project s pid = Some project"
    and "gps_latitude project = None \<or> gps_longitude project = None"
    and "projectId body = Some pid"
  shows "geofence_check project lat lng = None \<and>
         \<not> geofence_rejected (fst (checkin s uid body now db_now))"
proof -
  have g: "geofence_check project x y = None" for x y
    using assms(2) by (auto simp: geofence_check_def split: option.splits)
  have "\<not> geofence_rejected (fst (checkin s uid body now db_now))"
  proof (cases body rule: checkin_body_cases)
    case invalid
    then show ?thesis by (simp add: checkin_invalid)
  next
    case (valid pid' lat' lng')
    with assms(3) have "pid' = pid" by simp
    with valid assms(1) g [of lat' lng'] show ?thesis
      by (simp add: checkin_validated checkin_record_not_geofence split: option.splits)
  qed
  with g show ?thesis by simp
qed

text \<open>Claim C7 at the project without a location: a check-in from (51.5, 12) is let through
  and succeeds.\<close>

theorem unregistered_site_skips_geofence_witness:
  "select_project empty_ledger 2 = Some unlocated_site \<and>
   gps_latitude unlocated_site = None \<and> projectId body_unlocated = Some 2 \<and>
   geofence_check unlocated_site 51.5 12 = None \<and>
   \<not> geofence_rejected (fst (checkin empty_ledger 3 body_unlocated 0 0)) \<and>
   isl (fst (checkin empty_ledger 3 body_unlocated 0 0)) = False"
proof -
  have a: "select_project empty_ledger 2 = Some unlocated_site" by simp
  have b: "gps_latitude unlocated_site = None" by (simp add: unlocated_site_def)
  have c: "projectId body_unlocated = Some 2" by (simp add: body_unlocated_def)
  have d: "isl (fst (checkin empty_ledger 3 body_unlocated 0 0)) = False"
    by (simp add: checkin_def sample_defs route_defs)
  show ?thesis
    using a b c d
      unregistered_site_skips_geofence [of empty_ledger 2 unlocated_site body_unlocated
        "51.5" 12 3 0 0]
    by simp
qed

text \<open>
  Claim C8, as amended. For a worker without an open shift every check-out request fails
  and leaves the database as it is; the failure is NoActiveShift whenever the request
  carries a latitude and a longitude other than 0.
\<close>

theorem checkout_without_open_shift:
  assumes "select_worker_id s uid = Some w" and "active_checkins s w = []"
  shows "isl (fst (checkout s uid body now db_now)) \<and>
         snd (checkout s uid body now db_now) = s \<and>
         (\<not> falsy_number (gpsLat body) \<and> \<not> falsy_number (gpsLng body) \<longrightarrow>
            fst (checkout s uid body now db_now) = Inl NoActiveShift)"
proof (cases body rule: checkout_body_cases)
  case invalid
  then show ?thesis by (auto simp: checkout_invalid)
next
  case (valid lat lng)
  have "order_by_checkin_time_desc (active_checkins s w) = []"
    using assms(2) by simp
  with valid assms(1) have "checkout s uid body now db_now = (Inl NoActiveShift, s)"
    by (simp add: checkout_validated)
  then show ?thesis by simp
qed

text \<open>Claim C8 at the empty ledger: worker 7 has no open shift and the check-out at the
  Riverside site is answered with NoActiveShift.\<close>

theorem checkout_without_open_shift_witness:
  "select_worker_id empty_ledger 3 = Some 7 \<and> active_checkins empty_ledger 7 = [] \<and>
   \<not> falsy_number (gpsLat body_leave) \<and> \<not> falsy_number (gpsLng body_leave) \<and>
   checkout empty_ledger 3 body_leave 9000000 9000000 = (Inl NoActiveShift, empty_ledger)"
proof -
  have a: "select_worker_id empty_ledger 3 = Some 7" by simp
  have b: "active_checkins empty_ledger 7 = []" by simp
  have c: "\<not> falsy_number (gpsLat body_leave)" "\<not> falsy_number (gpsLng body_leave)"
    by (simp_all add: body_leave_def falsy_number_def)
  show ?thesis
    using a b c checkout_without_open_shift [of empty_ledger 3 7 body_leave 9000000 9000000]
    by (simp add: prod_eq_iff)
qed

text \<open>Claim C8 as stated fails: worker 7 has no open shift, and a check-out request that
  carries no coordinates is answered with the missing-fields error, not with
  NoActiveShift; so is a check-out request from the prime meridian.\<close>

theorem checkout_without_coordinates:
  "select_worker_id empty_ledger 3 = Some 7 \<and> active_checkins empty_ledger 7 = [] \<and>
   fst (checkout empty_ledger 3 body_no_gps 9000000 9000000) = Inl MissingFields \<and>
   fst (checkout empty_ledger 3 body_no_gps 9000000 9000000) \<noteq> Inl NoActiveShift \<and>
   fst (checkout empty_ledger 3 body_meridian 9000000 9000000) = Inl MissingFields"
  by (simp add: checkout_def body_no_gps_def body_meridian_def falsy_number_def)

text \<open>
  Claim C3, as amended. For a worker with an open shift every check-in request fails and
  leaves the database as it is; a request that has its three required fields, names an
  existing project and passes the geofence step fails with AlreadyCheckedIn, which carries
  the identifier of an open shift of the worker (of the open shift, since by C1 there is
  one).
\<close>

theorem checkin_with_open_shift:
  assumes "select_worker_id s uid = Some w" and "active_checkins s w = c # cs"
  shows "isl (fst (checkin s uid body now db_now)) \<and>
         snd (checkin s uid body now db_now) = s \<and>
         (projectId body = Some pid \<and> pid \<noteq> 0 \<and> gpsLat body = Some lat \<and> lat \<noteq> 0 \<and>
          gpsLng body = Some lng \<and> lng \<noteq> 0 \<and> select_project s pid = Some project \<and>
          geofence_check project lat lng = None \<longrightarrow>
            fst (checkin s uid body now db_now) = Inl (AlreadyCheckedIn (row_id c)))"
proof -
  have rec: "checkin_record s w p x y ph sc now db_now = (Inl (AlreadyCheckedIn (row_id c)), s)"
    for p x y ph sc
    using assms(2) by (simp add: checkin_record_def)
  have fail: "isl (fst (checkin s uid body now db_now)) \<and> snd (checkin s uid body now db_now) = s"
  proof (cases body rule: checkin_body_cases)
    case invalid
    then show ?thesis by (simp add: checkin_invalid)
  next
    case (valid pid' lat' lng')
    then show ?thesis
      using assms(1) rec
      by (simp add: checkin_validated split: option.splits)
  qed
  have "fst (checkin s uid body now db_now) = Inl (AlreadyCheckedIn (row_id c))"
    if "projectId body = Some pid" "pid \<noteq> 0" "gpsLat body = Some lat" "lat \<noteq> 0"
      "gpsLng body = Some lng" "lng \<noteq> 0" "select_project s pid = Some project"
      "geofence_check project lat lng = None"
    using that assms(1) rec by (simp add: checkin_validated)
  with fail show ?thesis by blast
qed

text \<open>Claim C3 at the specification's scenario, checking in twice in a row: the second
  check-in at the Riverside site carries the identifier 1 of the open shift and creates
  nothing.\<close>

theorem checkin_with_open_shift_witness:
  "select_worker_id open_ledger 3 = Some 7 \<and> active_checkins open_ledger 7 = [first_shift] \<and>
   row_id first_shift = 1 \<and>
   checkin open_ledger 3 body_at_site 5 5 = (Inl (AlreadyCheckedIn 1), open_ledger)"
proof -
  have a: "select_worker_id open_ledger 3 = Some 7" by simp
  have b: "active_checkins open_ledger 7 = [first_shift]" by simp
  have i: "row_id first_shift = 1" by (simp add: first_shift_def)
  have f: "projectId body_at_site = Some 1 \<and> (1::nat) \<noteq> 0 \<and>
           gpsLat body_at_site = Some 30.2672 \<and> (30.2672::real) \<noteq> 0 \<and>
           gpsLng body_at_site = Some (- 97.7431) \<and> (- 97.7431::real) \<noteq> 0"
    by (simp add: body_at_site_def)
  have p: "select_project open_ledger 1 = Some riverside" by simp
  have g: "geofence_check riverside 30.2672 (- 97.7431) = None"
    by (simp add: riverside_def geofence_check_def maxDistance_def calculateDistance_same)
  show ?thesis
    using a b i f p g
      checkin_with_open_shift [of open_ledger 3 7 first_shift "[]" body_at_site 5 5 1
        "30.2672" "- 97.7431" riverside]
    by (simp add: prod_eq_iff)
qed

text \<open>Claim C3 as stated fails: worker 7 has the open shift 1, and a further check-in
  from 500 metres north of the site is answered with the geofence violation, not with
  AlreadyCheckedIn.\<close>

theorem checkin_with_open_shift_outside_geofence:
  "select_worker_id open_ledger 3 = Some 7 \<and> active_checkins open_ledger 7 = [first_shift] \<and>
   geofence_rejected (fst (checkin open_ledger 3 body_away 5 5)) \<and>
   fst (checkin open_ledger 3 body_away 5 5) \<noteq> Inl (AlreadyCheckedIn (row_id first_shift))"
  by (simp add: checkin_away)

subsection \<open>More sample runs\<close>

lemma checkin_scheduled:
  "checkin empty_ledger 3 body_scheduled 0 0 = (Inr late_shift, late_ledger)"
  by (simp add: checkin_def sample_defs route_defs calculateDistance_same)

lemma checkout_single:
  assumes "gpsLat body = Some lat" "lat \<noteq> 0" "gpsLng body = Some lng" "lng \<noteq> 0"
    and "select_worker_id s uid = Some w" and "active_checkins s w = [c]"
    and "pg_numeric 10 8 lat = Some slat" and "pg_numeric 11 8 lng = Some slng"
    and "toFixed2 (double_div (now - checkin_time c) 3600000) = h" and "\<bar>h\<bar> < 1000"
  shows "checkout s uid body now db_now =
     (Inr (close_row slat slng (or_null (photoUrl body)) h (or_null (notes_field body)) db_now c, h),
      s\<lparr> checkins := map (\<lambda>r. if row_id r = row_id c
                 then close_row slat slng (or_null (photoUrl body)) h (or_null (notes_field body))
                        db_now r
                 else r) (checkins s) \<rparr>)"
proof -
  have "pg_round 2 h = h"
    using assms(9) pg_round_toFixed2 [of "double_div (now - checkin_time c) 3600000"] by simp
  then have n: "pg_numeric 5 2 h = Some h"
    using assms(10) by (simp add: pg_numeric_def)
  have o: "order_by_checkin_time_desc [c] = [c]"
    by (simp add: order_by_checkin_time_desc_def)
  show ?thesis
    by (simp add: checkout_validated [OF assms(1-4)] assms(5,6,9) o update_checkout_def
        assms(7,8) n)
qed

lemma checkout_open_ledger:
  assumes "toFixed2 (double_div now 3600000) = h" and "\<bar>h\<bar> < 1000"
  shows "checkout open_ledger 3 body_leave now db_now =
     (Inr (close_row 30.2672 (- 97.7431) None h None db_now first_shift, h),
      open_ledger\<lparr> checkins := [close_row 30.2672 (- 97.7431) None h None db_now first_shift] \<rparr>)"
proof -
  have b: "gpsLat body_leave = Some 30.2672" "(30.2672::real) \<noteq> 0"
      "gpsLng body_leave = Some (- 97.7431)" "(- 97.7431::real) \<noteq> 0"
    by (simp_all add: body_leave_def)
  have c: "pg_numeric 10 8 30.2672 = Some 30.2672" "pg_numeric 11 8 (- 97.7431) = Some (- 97.7431)"
    by (simp_all add: pg_numeric_def pg_round_def)
  have t: "toFixed2 (double_div (now - checkin_time first_shift) 3600000) = h"
    using assms(1) by (simp add: first_shift_def)
  have "checkins open_ledger = [first_shift]" by (simp add: open_ledger_def)
  then show ?thesis
    using checkout_single [OF b sample_worker(2) sample_active(2) c t assms(2), of db_now]
    by (simp add: body_leave_def or_null_def)
qed

lemma checkout_two_and_a_half_hours:
  "checkout open_ledger 3 body_leave 9000000 9000005 = (Inr (closed_shift, 5 / 2), closed_ledger)"
proof -
  have "close_row 30.2672 (- 97.7431) None (5 / 2) None 9000005 first_shift = closed_shift"
    by (simp add: close_row_def closed_shift_def first_shift_def)
  then show ?thesis
    using checkout_open_ledger [of 9000000 "5 / 2" 9000005]
    by (simp add: hours_2h_30m closed_ledger_def)
qed

subsection \<open>Lateness and the columns a check-out writes\<close>

lemma close_row_with_checkout_columns:
  "close_row slat slng photo h nts t r =
     with_checkout_columns (close_row slat slng photo h nts t c) r"
  by (simp add: close_row_def with_checkout_columns_def)

lemma step_keeps_is_late:
  "\<exists>ys. map (\<lambda>c. (row_id c, is_late c)) (checkins (step s r)) =
          map (\<lambda>c. (row_id c, is_late c)) (checkins s) @ ys"
proof (cases r)
  case (CheckIn uid body now db_now)
  obtain res s' where res: "checkin s uid body now db_now = (res, s')"
    by (cases "checkin s uid body now db_now")
  then show ?thesis
  proof (cases rule: checkin_cases)
    case rejected
    with res CheckIn show ?thesis by simp
  next
    case (created row w pid lat lng)
    from insert_checkin_Some(1) [OF created(4)] res CheckIn show ?thesis by simp
  qed
next
  case (CheckOut uid body now db_now)
  obtain res s' where res: "checkout s uid body now db_now = (res, s')"
    by (cases "checkout s uid body now db_now")
  then show ?thesis
  proof (cases rule: checkout_cases)
    case rejected
    with res CheckOut show ?thesis by simp
  next
    case (closed w c lat lng row)
    from closed(6) obtain slat slng h where
      "s' = s\<lparr> checkins := map (\<lambda>r. if row_id r = row_id c
            then close_row slat slng (or_null (photoUrl body)) h (or_null (notes_field body)) db_now r
            else r) (checkins s) \<rparr>"
      by (rule update_checkout_Some)
    then have "map (\<lambda>c. (row_id c, is_late c)) (checkins s') =
               map (\<lambda>c. (row_id c, is_late c)) (checkins s)"
      by (simp add: close_row_def comp_def cong: map_cong)
    with res CheckOut show ?thesis by simp
  qed
next
  case (GetCheckins q)
  then show ?thesis by simp
next
  case (GetActive uid)
  then show ?thesis by simp
qed

lemma run_keeps_is_late:
  "\<exists>ys. map (\<lambda>c. (row_id c, is_late c)) (checkins (foldl step s rs)) =
          map (\<lambda>c. (row_id c, is_late c)) (checkins s) @ ys"
proof (induction rs arbitrary: s)
  case Nil
  then show ?case by simp
next
  case (Cons r rs)
  from Cons [of "step s r"] obtain ys where
    "map (\<lambda>c. (row_id c, is_late c)) (checkins (foldl step (step s r) rs)) =
       map (\<lambda>c. (row_id c, is_late c)) (checkins (step s r)) @ ys" by blast
  moreover from step_keeps_is_late [of s r] obtain zs where
    "map (\<lambda>c. (row_id c, is_late c)) (checkins (step s r)) =
       map (\<lambda>c. (row_id c, is_late c)) (checkins s) @ zs" by blast
  ultimately show ?case by simp
qed

text \<open>
  Claim C6. The shift that a successful check-in creates is late exactly when a scheduled
  time was supplied and \<open>now\<close> is strictly after it, and is not late when none was supplied;
  the shift is appended to the ledger, and whatever requests follow, every row of the
  ledger keeps its identifier and its lateness flag.
\<close>

theorem is_late_fixed_at_checkin:
  assumes "checkin s uid body now db_now = (Inr row, s')"
  shows "(is_late row \<longleftrightarrow> (\<exists>t. scheduledTime body = Some t \<and> t < now)) \<and>
         (scheduledTime body = None \<longrightarrow> \<not> is_late row) \<and>
         checkins s' = checkins s @ [row] \<and>
         take (length (checkins s'))
              (map (\<lambda>c. (row_id c, is_late c)) (checkins (foldl step s' rs))) =
           map (\<lambda>c. (row_id c, is_late c)) (checkins s')"
proof -
  have "is_late row = (case scheduledTime body of None \<Rightarrow> False | Some t \<Rightarrow> t < now)
        \<and> checkins s' = checkins s @ [row]"
    using assms
  proof (cases rule: checkin_cases)
    case rejected
    then show ?thesis by simp
  next
    case (created row' w pid lat lng)
    with insert_checkin_Some(1,6) [OF created(4)] show ?thesis by simp
  qed
  then have late: "is_late row = (case scheduledTime body of None \<Rightarrow> False | Some t \<Rightarrow> t < now)"
    and app: "checkins s' = checkins s @ [row]" by simp_all
  from run_keeps_is_late [of s' rs] obtain ys where
    "map (\<lambda>c. (row_id c, is_late c)) (checkins (foldl step s' rs)) =
       map (\<lambda>c. (row_id c, is_late c)) (checkins s') @ ys" by blast
  then have "take (length (checkins s'))
              (map (\<lambda>c. (row_id c, is_late c)) (checkins (foldl step s' rs))) =
           map (\<lambda>c. (row_id c, is_late c)) (checkins s')" by simp
  with late app show ?thesis by (auto split: option.splits)
qed

text \<open>Claim C6 at the specification's scenarios: without a scheduled time the created
  shift is not late; with a scheduled time one hour before the check-in it is late, and it
  keeps its flag through a later check-out.\<close>

theorem is_late_fixed_at_checkin_witness:
  "checkin empty_ledger 3 body_at_site 0 0 = (Inr first_shift, open_ledger) \<and>
   scheduledTime body_at_site = None \<and> \<not> is_late first_shift \<and>
   checkin empty_ledger 3 body_scheduled 0 0 = (Inr late_shift, late_ledger) \<and>
   scheduledTime body_scheduled = Some (- 3600000) \<and> is_late late_shift \<and>
   checkins late_ledger = checkins empty_ledger @ [late_shift] \<and>
   take (length (checkins late_ledger))
        (map (\<lambda>c. (row_id c, is_late c))
           (checkins (foldl step late_ledger [CheckOut 3 body_leave 9000000 9000005]))) =
     map (\<lambda>c. (row_id c, is_late c)) (checkins late_ledger)"
proof -
  have a0: "checkin empty_ledger 3 body_at_site 0 0 = (Inr first_shift, open_ledger)"
    by (rule checkin_at_site)
  have b0: "scheduledTime body_at_site = None"
    by (simp add: body_at_site_def)
  from is_late_fixed_at_checkin [OF a0, of "[]"] b0 have l0: "\<not> is_late first_shift" by blast
  have a: "checkin empty_ledger 3 body_scheduled 0 0 = (Inr late_shift, late_ledger)"
    by (rule checkin_scheduled)
  have b: "scheduledTime body_scheduled = Some (- 3600000)"
    by (simp add: body_scheduled_def)
  note t = is_late_fixed_at_checkin [OF a, of "[CheckOut 3 body_leave 9000000 9000005]"]
  from t b have l: "is_late late_shift" by simp
  from t have c: "checkins late_ledger = checkins empty_ledger @ [late_shift]" by blast
  from t have d: "take (length (checkins late_ledger))
        (map (\<lambda>c. (row_id c, is_late c))
           (checkins (foldl step late_ledger [CheckOut 3 body_leave 9000000 9000005]))) =
     map (\<lambda>c. (row_id c, is_late c)) (checkins late_ledger)" by blast
  from a0 b0 l0 a b l c d show ?thesis by blast
qed

text \<open>
  Claim C9, as amended. A successful check-out closes an open row \<open>c\<close> of the ledger: the
  returned row is \<open>c\<close> with new values in the columns \<^verbatim>\<open>checkout_time\<close>,
  \<^verbatim>\<open>checkout_gps_lat\<close>, \<^verbatim>\<open>checkout_gps_lng\<close>, \<^verbatim>\<open>checkout_photo_url\<close>, \<^verbatim>\<open>hours_worked\<close>,
  \<^verbatim>\<open>notes\<close> and \<^verbatim>\<open>updated_at\<close> and with every other column as it was, among them the
  check-in time, the check-in coordinate and the lateness flag; in the table the rows with
  the identifier of \<open>c\<close> are rewritten in this way and every other row is as it was; the
  other tables and the identifier sequence are as they were.
\<close>

theorem checkout_writes_checkout_columns:
  assumes "checkout s uid body now db_now = (Inr (row, h), s')"
  shows "(\<exists>c \<in> set (checkins s).
            checkout_time c = None \<and> row_id c = row_id row \<and>
            row = with_checkout_columns row c \<and>
            checkin_time row = checkin_time c \<and>
            checkin_gps_lat row = checkin_gps_lat c \<and>
            checkin_gps_lng row = checkin_gps_lng c \<and>
            is_late row = is_late c) \<and>
         checkins s' = map (\<lambda>r. if row_id r = row_id row then with_checkout_columns row r else r)
                         (checkins s) \<and>
         workers s' = workers s \<and> projects s' = projects s \<and>
         checkins_id_seq s' = checkins_id_seq s"
  using assms
proof (cases rule: checkout_cases)
  case rejected
  then show ?thesis by simp
next
  case (closed w c lat lng row')
  from closed(5) have row': "row' = row" by simp
  from closed(6) obtain slat slng hv where
    row: "row' = close_row slat slng (or_null (photoUrl body)) hv (or_null (notes_field body)) db_now c"
    and s': "s' = s\<lparr> checkins := map (\<lambda>r. if row_id r = row_id c
            then close_row slat slng (or_null (photoUrl body)) hv (or_null (notes_field body)) db_now r
            else r) (checkins s) \<rparr>"
    by (rule update_checkout_Some)
  have c: "c \<in> set (checkins s)" "checkout_time c = None"
    using closed(2) by (simp_all add: active_checkins_def)
  have id: "row_id row = row_id c"
    using row row' by (simp add: close_row_def)
  have w: "close_row slat slng (or_null (photoUrl body)) hv (or_null (notes_field body)) db_now r
             = with_checkout_columns row r" for r
    using row row' close_row_with_checkout_columns by metis
  have "row = with_checkout_columns row c" using row row' w by simp
  moreover have "checkin_time row = checkin_time c" "checkin_gps_lat row = checkin_gps_lat c"
      "checkin_gps_lng row = checkin_gps_lng c" "is_late row = is_late c"
    using row row' by (simp_all add: close_row_def)
  moreover have "checkins s' = map (\<lambda>r. if row_id r = row_id row
        then with_checkout_columns row r else r) (checkins s)"
    using s' by (simp add: id w)
  moreover have "workers s' = workers s" "projects s' = projects s"
      "checkins_id_seq s' = checkins_id_seq s"
    using s' by simp_all
  ultimately show ?thesis using c id by auto
qed

text \<open>Claim C9 at the check-out of the first shift after two and a half hours.\<close>

theorem checkout_writes_checkout_columns_witness:
  "checkout open_ledger 3 body_leave 9000000 9000005 = (Inr (closed_shift, 5 / 2), closed_ledger) \<and>
   first_shift \<in> set (checkins open_ledger) \<and>
   closed_shift = with_checkout_columns closed_shift first_shift \<and>
   checkin_time closed_shift = 0 \<and> \<not> is_late closed_shift \<and>
   checkins closed_ledger =
     map (\<lambda>r. if row_id r = row_id closed_shift then with_checkout_columns closed_shift r else r)
       (checkins open_ledger)"
proof -
  have a: "checkout open_ledger 3 body_leave 9000000 9000005 =
             (Inr (closed_shift, 5 / 2), closed_ledger)"
    by (rule checkout_two_and_a_half_hours)
  have b: "first_shift \<in> set (checkins open_ledger)" by (simp add: open_ledger_def)
  have c: "closed_shift = with_checkout_columns closed_shift first_shift"
      "checkin_time closed_shift = 0" "\<not> is_late closed_shift"
    by (simp_all add: closed_shift_def with_checkout_columns_def first_shift_def)
  show ?thesis
    using a b c checkout_writes_checkout_columns [OF a] by simp
qed

text \<open>Claim C9 as stated fails, since it names the columns of the \<^verbatim>\<open>SET\<close> clause only:
  the check-out of the first shift also moves its \<^verbatim>\<open>updated_at\<close> from 0 to 9000005 (the
  table's update trigger), so the closed row is not the open row with new values in the
  columns of the \<^verbatim>\<open>SET\<close> clause.\<close>

theorem checkout_also_writes_updated_at:
  "fst (checkout open_ledger 3 body_leave 9000000 9000005) = Inr (closed_shift, 5 / 2) \<and>
   active_checkins open_ledger 7 = [first_shift] \<and> row_id closed_shift = row_id first_shift \<and>
   updated_at first_shift = 0 \<and> updated_at closed_shift = 9000005 \<and>
   closed_shift \<noteq> with_set_clause_columns closed_shift first_shift"
proof -
  have "updated_at (with_set_clause_columns closed_shift first_shift) = 0"
    by (simp add: with_set_clause_columns_def first_shift_def)
  moreover have "updated_at closed_shift = 9000005"
    by (simp add: closed_shift_def)
  ultimately have "closed_shift \<noteq> with_set_clause_columns closed_shift first_shift"
    by (metis zero_neq_numeral)
  then show ?thesis
    by (simp add: checkout_two_and_a_half_hours closed_shift_def first_shift_def)
qed

subsection \<open>Hours worked\<close>

text \<open>An elapsed time whose hours fit the column \<^verbatim>\<open>DECIMAL(5,2)\<close> is far below \<open>2 ^ 53\<close>
  milliseconds, the range in which JavaScript's subtraction of two time values is exact;
  beyond it the update is rejected, with the exact difference as with a rounded one.\<close>

lemma hours_fit_bound:
  assumes "0 < p" and "\<bar>toFixed2 (double_div p 3600000)\<bar> < 1000"
  shows "p < 2 ^ 53"
proof (rule ccontr)
  assume "\<not> p < 2 ^ 53"
  then have big: "(2::int) ^ 53 \<le> p" by simp
  define y where "y = double_div_pos p 3600000"
  define x :: real where "x = of_int p / 3600000"
  have "(of_int ((2::int) ^ 53) :: real) \<le> of_int p"
    using big by (simp only: of_int_le_iff)
  then have xbig: "2 ^ 53 / 3600000 \<le> x"
    by (simp add: x_def divide_right_mono)
  have y0: "0 \<le> y" unfolding y_def using assms(1) by (intro double_div_pos_nonneg) simp_all
  have "\<bar>y - of_int p / of_int 3600000\<bar> \<le> (of_int p / of_int 3600000) / 2 ^ 53"
    unfolding y_def using assms(1) by (intro double_div_pos_error) simp_all
  then have "\<bar>y - x\<bar> \<le> x / 2 ^ 53" by (simp add: x_def)
  then have "x - x / 2 ^ 53 \<le> y" by linarith
  moreover have "x / 2 ^ 53 \<le> x / 2"
    using xbig by (intro divide_left_mono) simp_all
  ultimately have "x / 2 \<le> y" by linarith
  with xbig have ybig: "1001 \<le> y" by simp
  have "y * 100 + 1 / 2 - 1 < of_int \<lfloor>y * 100 + 1 / 2\<rfloor>" by linarith
  with ybig have z: "1000 < (of_int \<lfloor>y * 100 + 1 / 2\<rfloor> :: real) / 100" by simp
  have "toFixed2 (double_div p 3600000) = of_int \<lfloor>y * 100 + 1 / 2\<rfloor> / 100"
    using y0 assms(1) by (simp add: double_div_def toFixed2_def y_def)
  with z have "1000 < toFixed2 (double_div p 3600000)" by (simp only:)
  with assms(2) show False by linarith
qed

text \<open>
  Claim C4, as amended. After a successful check-out the returned \<^verbatim>\<open>hoursWorked\<close> and the
  recorded \<^verbatim>\<open>hours_worked\<close> are the same number: the double-precision quotient of the
  elapsed milliseconds (\<open>now\<close> minus the shift's check-in time) by 3600000, rounded by
  \<^verbatim>\<open>toFixed(2)\<close>. It is the exact number of elapsed hours rounded half up to two places
  whenever the elapsed time is not negative and is not a tie of that rounding, that is,
  whenever the elapsed milliseconds are not 18000 modulo 36000.
\<close>

theorem hours_worked_rounding:
  assumes "checkout s uid body now db_now = (Inr (row, h), s')"
  shows "hours_worked row = Some h \<and> row \<in> set (checkins s') \<and>
         h = toFixed2 (double_div (now - checkin_time row) 3600000) \<and>
         (0 \<le> now - checkin_time row \<and> (now - checkin_time row) mod 36000 \<noteq> 18000 \<longrightarrow>
            h = half_up2 (of_int (now - checkin_time row) / 3600000))"
  using assms
proof (cases rule: checkout_cases)
  case rejected
  then show ?thesis by simp
next
  case (closed w c lat lng row')
  from closed(5) have row': "row' = row"
    and h: "h = toFixed2 (double_div (now - checkin_time c) 3600000)" by simp_all
  from closed(6) obtain slat slng hv where
    fit: "pg_numeric 5 2 (toFixed2 (double_div (now - checkin_time c) 3600000)) = Some hv"
    and row: "row' = close_row slat slng (or_null (photoUrl body)) hv (or_null (notes_field body)) db_now c"
    and s': "s' = s\<lparr> checkins := map (\<lambda>r. if row_id r = row_id c
            then close_row slat slng (or_null (photoUrl body)) hv (or_null (notes_field body)) db_now r
            else r) (checkins s) \<rparr>"
    by (rule update_checkout_Some)
  from fit h have hv: "hv = h" and small: "\<bar>h\<bar> < 1000"
    by (auto simp: pg_numeric_def Let_def pg_round_toFixed2 split: if_splits)
  have t: "checkin_time row = checkin_time c"
    using row row' by (simp add: close_row_def)
  have rec: "hours_worked row = Some h"
    using row row' hv by (simp add: close_row_def)
  have "c \<in> set (checkins s)" using closed(2) by (simp add: active_checkins_def)
  then have "(if row_id c = row_id c
              then close_row slat slng (or_null (photoUrl body)) hv (or_null (notes_field body)) db_now c
              else c) \<in> set (checkins s')"
    unfolding s' by (simp add: image_iff) blast
  then have mem: "row \<in> set (checkins s')" using row row' by simp
  have "h = half_up2 (of_int (now - checkin_time row) / 3600000)"
    if "0 \<le> now - checkin_time row" "(now - checkin_time row) mod 36000 \<noteq> 18000"
  proof -
    define p where "p = now - checkin_time row"
    have p: "0 \<le> p" "p mod 36000 \<noteq> 18000" using that by (simp_all add: p_def)
    have hp: "h = toFixed2 (double_div p 3600000)" using h t by (simp add: p_def)
    have "p < 2 ^ 53"
    proof (cases "p = 0")
      case True
      then show ?thesis by simp
    next
      case False
      with p(1) have "0 < p" by simp
      then show ?thesis using small hp by (intro hours_fit_bound) simp_all
    qed
    with p have "toFixed2 (double_div p 3600000) = of_int ((p + 18000) div 36000) / 100"
      by (intro toFixed2_double_div)
    also have "\<dots> = half_up2 (of_int p / 3600000)"
      by (rule half_up2_hours [symmetric])
    finally have "h = half_up2 (of_int p / 3600000)" using hp by (simp only:)
    then show ?thesis unfolding p_def .
  qed
  with rec mem h t show ?thesis by simp
qed

text \<open>Claim C4 at the specification's scenario: a check-out two hours and thirty minutes
  after the check-in records and returns 2.50.\<close>

theorem hours_worked_rounding_witness:
  "checkout open_ledger 3 body_leave 9000000 9000005 = (Inr (closed_shift, 5 / 2), closed_ledger) \<and>
   checkin_time closed_shift = 0 \<and>
   0 \<le> 9000000 - checkin_time closed_shift \<and>
   (9000000 - checkin_time closed_shift) mod 36000 \<noteq> 18000 \<and>
   hours_worked closed_shift = Some (5 / 2) \<and> closed_shift \<in> set (checkins closed_ledger) \<and>
   5 / 2 = half_up2 (of_int (9000000 - checkin_time closed_shift) / 3600000)"
proof -
  have a: "checkout open_ledger 3 body_leave 9000000 9000005 =
             (Inr (closed_shift, 5 / 2), closed_ledger)"
    by (rule checkout_two_and_a_half_hours)
  have b: "checkin_time closed_shift = 0"
    by (simp add: closed_shift_def first_shift_def)
  have c: "0 \<le> 9000000 - checkin_time closed_shift"
    "(9000000 - checkin_time closed_shift) mod 36000 \<noteq> 18000"
    by (simp_all add: b)
  from a b c hours_worked_rounding [OF a] show ?thesis by blast
qed

text \<open>Claim C4 as stated fails: 54 seconds after the check-in the elapsed time is 0.015
  hours, which rounds half up to 0.02; the double nearest to 0.015 lies below it, and the
  check-out returns and records 0.01.\<close>

theorem fifty_four_seconds_are_rounded_down:
  "map_sum id snd (fst (checkout open_ledger 3 body_leave 54000 54000)) = Inr (1 / 100) \<and>
   map_sum id (hours_worked \<circ> fst) (fst (checkout open_ledger 3 body_leave 54000 54000))
     = Inr (Some (1 / 100)) \<and>
   checkin_time first_shift = 0 \<and>
   half_up2 (of_int (54000 - 0) / 3600000) = 2 / 100"
proof -
  have "checkout open_ledger 3 body_leave 54000 54000 =
     (Inr (close_row 30.2672 (- 97.7431) None (1 / 100) None 54000 first_shift, 1 / 100),
      open_ledger\<lparr> checkins :=
         [close_row 30.2672 (- 97.7431) None (1 / 100) None 54000 first_shift] \<rparr>)"
    using hours_54_seconds by (intro checkout_open_ledger) simp_all
  moreover have "half_up2 (of_int (54000 - 0) / 3600000) = 2 / 100"
    by (simp add: half_up2_def)
  ultimately show ?thesis by (simp add: close_row_def first_shift_def)
qed

subsection \<open>The geofence step\<close>

lemma checkin_geofence:
  assumes "projectId body = Some pid" "pid \<noteq> 0"
    and "gpsLat body = Some lat" "lat \<noteq> 0"
    and "gpsLng body = Some lng" "lng \<noteq> 0"
    and "select_worker_id s uid = Some w" and "select_project s pid = Some project"
    and "gps_latitude project = Some plat" and "gps_longitude project = Some plng"
  shows "checkin s uid body now db_now =
     (if of_int (maxDistance project) < calculateDistance lat lng plat plng
      then (Inl (GeofenceViolation (js_round (calculateDistance lat lng plat plng))
                   (maxDistance project)), s)
      else checkin_record s w pid lat lng (photoUrl body) (scheduledTime body) now db_now)"
  by (simp add: checkin_validated [OF assms(1-6)] assms(7-10) geofence_check_def Let_def)




end
